theory Spec2Isabelle
  imports Complex_Main
begin

section \<open>Cross validation of PLS / OPLS models (cross_validation.py)\<close>

text \<open>
  The class \<open>CrossValidation\<close> is embedded shallowly. Python integers are \<open>int\<close> where
  the sign matters (\<open>kfold\<close>) and \<open>nat\<close> where the source can only produce a count or an
  index. numpy's float64 entries are idealised as \<open>real\<close>: rounding, infinities and NaN
  are outside the model. Every exception the source can raise is a value \<open>Inl e\<close>.
\<close>

subsection \<open>Errors\<close>

datatype py_error =
    ValueError string
  | AttributeError
  | TypeError
  | IndexError
  | ZeroDivisionError

subsection \<open>The fold splitter: \<open>_split\<close>\<close>

text \<open>
  \<open>train_index[lo:hi] = False\<close> on a boolean array, for non-negative bounds: positions
  \<open>lo \<le> j < hi\<close> inside the array are overwritten, a slice that reaches past the end is
  clipped and a slice with \<open>hi \<le> lo\<close> is empty.
\<close>

definition slice_assign :: "nat \<Rightarrow> nat \<Rightarrow> 'a \<Rightarrow> 'a list \<Rightarrow> 'a list" where
  "slice_assign lo hi v xs =
     map (\<lambda>(j, x). if lo \<le> j \<and> j < hi then v else x) (zip [0..<length xs] xs)"

text \<open>\<open>indices[mask]\<close>: the entries of \<open>indices\<close> at the positions where the boolean array is true.\<close>

definition mask_select :: "'a list \<Rightarrow> bool list \<Rightarrow> 'a list" where
  "mask_select xs bs = map fst (filter snd (zip xs bs))"

text \<open>One round of the generator's loop body, for fold number \<open>i\<close> and block size \<open>blk\<close>.\<close>

definition split_fold :: "nat \<Rightarrow> nat \<Rightarrow> nat \<Rightarrow> nat list \<times> nat list" where
  "split_fold n blk i =
     (let indices = [0..<n];
          train_index = slice_assign (blk * i) (min (blk * (i + 1)) n) False (replicate n True)
      in (mask_select indices train_index, mask_select indices (map Not train_index)))"

text \<open>
  \<open>_split(n)\<close> with \<open>self.kfold = kfold\<close>. The generator is read out as the list of the
  pairs it yields. \<open>n // kfold\<close> raises for \<open>kfold = 0\<close>; for a negative \<open>kfold\<close> the
  \<open>range\<close> is empty and nothing is yielded. Inside the loop \<open>kfold \<ge> 1\<close>, so the block
  size is a natural number.
\<close>

definition split :: "int \<Rightarrow> nat \<Rightarrow> py_error + (nat list \<times> nat list) list" where
  "split kfold n =
     (if kfold = 0 then Inl ZeroDivisionError
      else let blk = int n div kfold
           in Inr (map (\<lambda>i. split_fold n (nat blk) i) [0..<nat kfold]))"

subsection \<open>numpy arrays\<close>

text \<open>
  A one-dimensional float array is a list, a two-dimensional one the list of its rows.
  \<open>ncols\<close> reads the second entry of \<open>shape\<close>; an array without rows has lost it and
  reports 0, which agrees with the source wherever it only takes \<open>min\<close> of a shape.
\<close>

type_synonym vec = "real list"
type_synonym mat = "real list list"

definition ncols :: "'a list list \<Rightarrow> nat" where
  "ncols m = (case m of [] \<Rightarrow> 0 | r # _ \<Rightarrow> length r)"

definition bindE :: "py_error + 'a \<Rightarrow> ('a \<Rightarrow> py_error + 'b) \<Rightarrow> py_error + 'b" where
  "bindE m f = (case m of Inl e \<Rightarrow> Inl e | Inr x \<Rightarrow> f x)"

text \<open>A \<open>for\<close> loop whose body may raise: the first exception ends the loop.\<close>

fun foldE :: "('b \<Rightarrow> 'a \<Rightarrow> py_error + 'b) \<Rightarrow> 'a list \<Rightarrow> 'b \<Rightarrow> py_error + 'b" where
  "foldE f [] s = Inr s"
| "foldE f (x # xs) s = bindE (f s x) (foldE f xs)"

text \<open>\<open>a[idx]\<close> with an array of non-negative integer indices.\<close>

definition take_idx :: "'a list \<Rightarrow> nat list \<Rightarrow> py_error + 'a list" where
  "take_idx a idx =
     (if list_ex (\<lambda>i. length a \<le> i) idx then Inl IndexError else Inr (map (\<lambda>i. a ! i) idx))"

text \<open>\<open>(a ** 2).sum()\<close> for a vector and for a matrix.\<close>

definition sumsq_v :: "vec \<Rightarrow> real" where
  "sumsq_v v = sum_list (map (\<lambda>x. x * x) v)"

definition sumsq_m :: "mat \<Rightarrow> real" where
  "sumsq_m m = sum_list (map sumsq_v m)"

text \<open>\<open>a - b\<close> on one-dimensional arrays, with numpy's broadcasting of a length-one array.\<close>

definition np_sub :: "vec \<Rightarrow> vec \<Rightarrow> py_error + vec" where
  "np_sub a b =
     (if length a = length b then Inr (map (\<lambda>(x, y). x - y) (zip a b))
      else if length a = 1 then Inr (map (\<lambda>y. hd a - y) b)
      else if length b = 1 then Inr (map (\<lambda>x. x - hd b) a)
      else Inl (ValueError ''operands could not be broadcast together''))"

text \<open>\<open>m[:, j]\<close> and \<open>m[0][0]\<close>.\<close>

definition column :: "mat \<Rightarrow> nat \<Rightarrow> py_error + vec" where
  "column m j =
     (if list_ex (\<lambda>r. length r \<le> j) m then Inl IndexError else Inr (map (\<lambda>r. r ! j) m))"

definition item00 :: "mat \<Rightarrow> py_error + real" where
  "item00 m = (case m of [] \<Rightarrow> Inl IndexError
               | r # _ \<Rightarrow> (case r of [] \<Rightarrow> Inl IndexError | x # _ \<Rightarrow> Inr x))"

text \<open>\<open>np.dot\<close> on two vectors, on a vector and a matrix, and on two matrices.\<close>

definition dot_vv :: "vec \<Rightarrow> vec \<Rightarrow> py_error + real" where
  "dot_vv a b =
     (if length a = length b then Inr (sum_list (map (\<lambda>(x, y). x * y) (zip a b)))
      else Inl (ValueError ''shapes not aligned''))"

definition dot_vm :: "vec \<Rightarrow> mat \<Rightarrow> py_error + vec" where
  "dot_vm a m =
     (if length a = length m
      then Inr (map (\<lambda>c. sum_list (map (\<lambda>(x, y). x * y) (zip a c))) (transpose m))
      else Inl (ValueError ''shapes not aligned''))"

definition dot_mm :: "mat \<Rightarrow> mat \<Rightarrow> py_error + mat" where
  "dot_mm a b =
     (if list_ex (\<lambda>r. length r \<noteq> length b) a then Inl (ValueError ''shapes not aligned'')
      else Inr (map (\<lambda>r. map (\<lambda>c. sum_list (map (\<lambda>(x, y). x * y) (zip r c))) (transpose b)) a))"

definition dot_mv :: "mat \<Rightarrow> vec \<Rightarrow> py_error + vec" where
  "dot_mv a b =
     (if list_ex (\<lambda>r. length r \<noteq> length b) a then Inl (ValueError ''shapes not aligned'')
      else Inr (map (\<lambda>r. sum_list (map (\<lambda>(x, y). x * y) (zip r b))) a))"

text \<open>\<open>a - b\<close> on two matrices of one shape (broadcasting between matrices is not modelled).\<close>

definition sub_mm :: "mat \<Rightarrow> mat \<Rightarrow> py_error + mat" where
  "sub_mm a b =
     (if map length a = map length b
      then Inr (map (\<lambda>(r, s). map (\<lambda>(x, y). x - y) (zip r s)) (zip a b))
      else Inl (ValueError ''operands could not be broadcast together''))"

subsection \<open>Accumulator arrays\<close>

text \<open>
  The four arrays \<open>fit\<close> allocates with \<open>np.empty\<close> are instrumented: a cell holds its
  current value and, as ghost state, the index arrays of the assignments that wrote it, the
  latest first. \<open>np.empty\<close> does not initialise, so the initial values are a parameter.
\<close>

type_synonym cell = "real \<times> nat list list"
type_synonym accmat = "cell list list"

definition np_empty :: "(nat \<Rightarrow> nat \<Rightarrow> real) \<Rightarrow> nat \<Rightarrow> nat \<Rightarrow> accmat" where
  "np_empty g n m = map (\<lambda>r. map (\<lambda>c. (g r c, [])) [0..<m]) [0..<n]"

definition put_cell :: "nat list \<Rightarrow> nat \<Rightarrow> real \<Rightarrow> accmat \<Rightarrow> nat \<Rightarrow> accmat" where
  "put_cell idx c v a r = a[r := (a ! r)[c := (v, idx # snd (a ! r ! c))]]"

definition out_of_bounds :: "nat list \<Rightarrow> nat \<Rightarrow> accmat \<Rightarrow> bool" where
  "out_of_bounds idx c a = list_ex (\<lambda>r. length a \<le> r \<or> length (a ! r) \<le> c) idx"

text \<open>\<open>a[idx, c] = x\<close> for a scalar \<open>x\<close>, and \<open>a[idx, c] = v\<close> for a one-dimensional \<open>v\<close>.\<close>

definition assign_scalar :: "nat list \<Rightarrow> nat \<Rightarrow> real \<Rightarrow> accmat \<Rightarrow> py_error + accmat" where
  "assign_scalar idx c x a =
     (if out_of_bounds idx c a then Inl IndexError
      else Inr (fold (\<lambda>r a'. put_cell idx c x a' r) idx a))"

definition assign_col :: "nat list \<Rightarrow> nat \<Rightarrow> vec \<Rightarrow> accmat \<Rightarrow> py_error + accmat" where
  "assign_col idx c v a =
     (if out_of_bounds idx c a then Inl IndexError
      else if length v = length idx
        then Inr (fold (\<lambda>(r, x) a'. put_cell idx c x a' r) (zip idx v) a)
      else if length v = 1 then Inr (fold (\<lambda>r a'. put_cell idx c (hd v) a' r) idx a)
      else Inl (ValueError ''shape mismatch''))"

text \<open>The values of an accumulator, and \<open>a[:, :m]\<close>.\<close>

definition values_of :: "accmat \<Rightarrow> mat" where
  "values_of a = map (map fst) a"

definition first_cols :: "nat \<Rightarrow> 'a list list \<Rightarrow> 'a list list" where
  "first_cols m a = map (take m) a"

subsection \<open>The external collaborators\<close>

text \<open>
  \<open>pretreatment.Scaler\<close>, \<open>pls.PLS\<close> and \<open>opls.OPLS\<close> are not part of this module; they
  are parameters. A scaler object is a value of type \<open>'s\<close>, an estimator object a value of
  type \<open>'e\<close>; a method that mutates its object returns the new object. \<open>Scaler.fit\<close> and
  \<open>Scaler.scale\<close> are called on matrices and on vectors, hence two entries each.
  \<open>predict\<close> and \<open>correct\<close> return the pair they give with \<open>return_scores=True\<close>; a call
  without that flag takes the first component. They are taken not to modify the arrays
  they are passed.
\<close>

record ('s, 'e) externals =
  new_Scaler :: "string \<Rightarrow> 's"
  new_PLS :: "'e"
  new_OPLS :: "'e"
  sc_fit_m :: "'s \<Rightarrow> mat \<Rightarrow> 's \<times> mat"
  sc_fit_v :: "'s \<Rightarrow> vec \<Rightarrow> 's \<times> vec"
  sc_scale_m :: "'s \<Rightarrow> mat \<Rightarrow> mat"
  sc_scale_v :: "'s \<Rightarrow> vec \<Rightarrow> vec"
  est_fit :: "'e \<Rightarrow> mat \<Rightarrow> vec \<Rightarrow> nat \<Rightarrow> 'e"
  est_predict :: "'e \<Rightarrow> mat \<Rightarrow> nat \<Rightarrow> vec \<times> vec"
  est_correct :: "'e \<Rightarrow> mat \<Rightarrow> nat \<Rightarrow> mat \<times> mat"
  est_orthogonal_loadings :: "'e \<Rightarrow> mat"
  est_orthogonal_scores :: "'e \<Rightarrow> mat"
  est_predictive_loadings :: "'e \<Rightarrow> mat"
  est_predictive_scores :: "'e \<Rightarrow> mat"
  est_predictive_score :: "'e \<Rightarrow> nat \<Rightarrow> vec"
  est_weights_y :: "'e \<Rightarrow> vec"
  est_scores_x :: "'e \<Rightarrow> mat"
  est_loadings_x :: "'e \<Rightarrow> mat"

subsection \<open>The object\<close>

text \<open>
  The attributes of a \<open>CrossValidation\<close> object. A hidden attribute \<open>_name\<close> is the field
  \<open>h_name\<close>. \<open>None\<close> is both Python's \<open>None\<close> (the attributes \<open>__init__\<close> sets) and an
  attribute that does not exist yet (\<open>estimator\<close> for an unknown identifier, and
  \<open>_r2xcorr\<close>, \<open>_r2xyo\<close>, \<open>_cov\<close>, \<open>_corr\<close>, \<open>_r2x\<close>, \<open>_r2y\<close> before \<open>fit\<close>).
\<close>

record ('s, 'e) cross_validation =
  kfold :: int
  estimator :: "'e option"
  estimator_id :: string
  scaler :: 's
  h_ypred :: "mat option"
  h_Tortho :: "mat option"
  h_Tpred :: "mat option"
  h_ssx :: "(nat \<Rightarrow> string \<Rightarrow> real list) option"
  h_ssy :: "real option"
  y_attr :: "vec option"
  h_pressy :: "mat option"
  h_n :: "nat option"
  h_pcv :: "(nat \<Rightarrow> vec list) option"
  h_opt_component :: "nat option"
  h_mis_classifications :: "nat list option"
  h_q2 :: "vec option"
  h_r2xcorr :: "vec option"
  h_r2xyo :: "vec option"
  h_cov :: "vec option"
  h_corr :: "vec option"
  h_r2x :: "real option"
  h_r2y :: "real option"

text \<open>
  \<open>__init__\<close>. An identifier other than \<open>"pls"\<close> and \<open>"opls"\<close> falls through both branches:
  nothing is raised and the attribute \<open>estimator\<close> is not created.
\<close>

definition init :: "('s, 'e) externals \<Rightarrow> string \<Rightarrow> int \<Rightarrow> string \<Rightarrow>
    py_error + ('s, 'e) cross_validation" where
  "init ext est k sc =
     Inr \<lparr> kfold = k,
           estimator = (if est = ''pls'' then Some (new_PLS ext)
                        else if est = ''opls'' then Some (new_OPLS ext) else None),
           estimator_id = est,
           scaler = new_Scaler ext sc,
           h_ypred = None, h_Tortho = None, h_Tpred = None, h_ssx = None, h_ssy = None,
           y_attr = None, h_pressy = None, h_n = None, h_pcv = None,
           h_opt_component = None, h_mis_classifications = None, h_q2 = None,
           h_r2xcorr = None, h_r2xyo = None, h_cov = None, h_corr = None,
           h_r2x = None, h_r2y = None \<rparr>"

subsection \<open>The cross validation loop of \<open>fit\<close>\<close>

text \<open>The local variables of \<open>fit\<close> that the loop updates, with the two mutated objects.\<close>

record ('s, 'e) fit_state =
  st_scaler :: 's
  st_estimator :: "'e option"
  npc0 :: nat
  ssx :: "nat \<Rightarrow> string \<Rightarrow> real list"
  ssy :: "real list"
  ypred :: accmat
  pressy :: accmat
  tortho :: accmat
  tpred :: accmat
  pcv :: "nat \<Rightarrow> vec list"

definition ssx_append ::
  "(nat \<Rightarrow> string \<Rightarrow> real list) \<Rightarrow> nat \<Rightarrow> string \<Rightarrow> real \<Rightarrow> nat \<Rightarrow> string \<Rightarrow> real list" where
  "ssx_append d k key v = d(k := (d k)(key := d k key @ [v]))"

text \<open>The OPLS sums of squares and the covariance vector of one component count.\<close>

definition opls_sums :: "('s, 'e) externals \<Rightarrow> 'e \<Rightarrow> nat \<Rightarrow> mat \<Rightarrow> mat \<Rightarrow> mat \<Rightarrow> real \<Rightarrow>
    ('s, 'e) fit_state \<Rightarrow> py_error + ('s, 'e) fit_state" where
  "opls_sums ext e k xtr_scale xte_corr tcorr ssx_tot st =
     (let ssx1 = ssx_append (ssx st) k ''corr'' (sumsq_m xte_corr) in
      bindE (dot_mm tcorr (transpose (first_cols k (est_orthogonal_loadings ext e))))
        (\<lambda>xte_ortho.
      let ssx2 = ssx_append ssx1 k ''xyo'' (sumsq_m xte_ortho);
          ssx3 = ssx_append ssx2 k ''total'' ssx_tot in
      bindE (column (est_predictive_scores ext e) (k - 1)) (\<lambda>tp.
      bindE (dot_vm tp xtr_scale) (\<lambda>w.
      Inr (st\<lparr>ssx := ssx3, pcv := (pcv st)(k := pcv st k @ [map (\<lambda>x. x / sumsq_v tp) w])\<rparr>)))))"

text \<open>\<open>ypred[test_index, k-1] = yp_k\<close> and \<open>pressy[test_index, k-1] = (yp_k - yte_scale) ** 2\<close>.\<close>

definition store_pred :: "nat list \<Rightarrow> nat \<Rightarrow> vec \<Rightarrow> vec \<Rightarrow> ('s, 'e) fit_state \<Rightarrow>
    py_error + ('s, 'e) fit_state" where
  "store_pred test_index k yp_k yte_scale st =
     bindE (assign_col test_index (k - 1) yp_k (ypred st)) (\<lambda>ypred'.
     bindE (np_sub yp_k yte_scale) (\<lambda>d.
     bindE (assign_col test_index (k - 1) (map (\<lambda>x. x * x) d) (pressy st)) (\<lambda>pressy'.
     Inr (st\<lparr>ypred := ypred', pressy := pressy'\<rparr>))))"

text \<open>The orthogonal and predictive scores of one component count (OPLS only).\<close>

definition store_scores :: "nat list \<Rightarrow> nat \<Rightarrow> mat \<Rightarrow> mat \<Rightarrow> vec \<Rightarrow> ('s, 'e) fit_state \<Rightarrow>
    py_error + ('s, 'e) fit_state" where
  "store_scores test_index k xte_scale tcorr tp_k st =
     bindE (if length xte_scale = 1
            then bindE (item00 tcorr) (\<lambda>t. assign_scalar test_index 0 t (tortho st))
            else bindE (column tcorr 0) (\<lambda>c. assign_col test_index (k - 1) c (tortho st)))
       (\<lambda>tortho'.
     bindE (assign_col test_index (k - 1) tp_k (tpred st)) (\<lambda>tpred'.
     Inr (st\<lparr>tortho := tortho', tpred := tpred'\<rparr>)))"

text \<open>The body of the loop over the component counts \<open>k\<close>.\<close>

definition fit_component :: "('s, 'e) externals \<Rightarrow> string \<Rightarrow> 'e \<Rightarrow> nat list \<Rightarrow> mat \<Rightarrow> mat \<Rightarrow>
    vec \<Rightarrow> real \<Rightarrow> ('s, 'e) fit_state \<Rightarrow> nat \<Rightarrow> py_error + ('s, 'e) fit_state" where
  "fit_component ext est_id e test_index xtr_scale xte_scale yte_scale ssx_tot st k =
     (if est_id = ''opls'' then
        (let (xte_corr, tcorr) = est_correct ext e xte_scale k;
             (yp_k, tp_k) = est_predict ext e xte_corr k in
         bindE (store_scores test_index k xte_scale tcorr tp_k st) (\<lambda>st1.
         bindE (opls_sums ext e k xtr_scale xte_corr tcorr ssx_tot st1) (\<lambda>st2.
         store_pred test_index k yp_k yte_scale st2)))
      else
        (let yp_k = fst (est_predict ext e xte_scale k) in
         store_pred test_index k yp_k yte_scale st))"

text \<open>The body of the loop over the folds; \<open>p\<close> is the number of columns of \<open>x\<close>.\<close>

definition fit_fold :: "('s, 'e) externals \<Rightarrow> string \<Rightarrow> mat \<Rightarrow> vec \<Rightarrow> nat \<Rightarrow>
    ('s, 'e) fit_state \<Rightarrow> nat list \<times> nat list \<Rightarrow> py_error + ('s, 'e) fit_state" where
  "fit_fold ext est_id x y p st fd =
     (let train_index = fst fd; test_index = snd fd in
      bindE (take_idx x train_index) (\<lambda>xtr.
      bindE (take_idx x test_index) (\<lambda>xte.
      bindE (take_idx y train_index) (\<lambda>ytr.
      bindE (take_idx y test_index) (\<lambda>yte.
      let (s1, xtr_scale) = sc_fit_m ext (st_scaler st) xtr;
          xte_scale = sc_scale_m ext s1 xte;
          (s2, ytr_scale) = sc_fit_v ext s1 ytr;
          yte_scale = sc_scale_v ext s2 yte;
          ssy_tot = sumsq_v yte_scale;
          ssx_tot = sumsq_m xte_scale;
          npc = min (length xtr) p
      in (case st_estimator st of
            None \<Rightarrow> Inl AttributeError
          | Some e0 \<Rightarrow>
             (let e = est_fit ext e0 xtr_scale ytr_scale npc;
                  st1 = st\<lparr>st_scaler := s2, st_estimator := Some e,
                           npc0 := (if npc < npc0 st then npc else npc0 st)\<rparr>
              in bindE (foldE (fit_component ext est_id e test_index xtr_scale xte_scale
                                 yte_scale ssx_tot) [1..<npc + 1] st1)
                   (\<lambda>st2. Inr (st2\<lparr>ssy := ssy st2 @ [ssy_tot]\<rparr>)))))))))"

text \<open>
  \<open>fit\<close> up to the end of the loop over the folds. \<open>g\<close> gives the contents of the four
  uninitialised arrays by name.
\<close>

definition cv_loop :: "('s, 'e) externals \<Rightarrow> (string \<Rightarrow> nat \<Rightarrow> nat \<Rightarrow> real) \<Rightarrow>
    ('s, 'e) cross_validation \<Rightarrow> mat \<Rightarrow> vec \<Rightarrow> py_error + ('s, 'e) fit_state" where
  "cv_loop ext g cv x y =
     (let n = length x; p = ncols x; m = min n p;
          st0 = \<lparr> st_scaler = scaler cv, st_estimator = estimator cv, npc0 = m,
                  ssx = (\<lambda>k key. []), ssy = [],
                  ypred = np_empty (g ''ypred'') n m, pressy = np_empty (g ''pressy'') n m,
                  tortho = np_empty (g ''tortho'') n m, tpred = np_empty (g ''tpred'') n m,
                  pcv = (\<lambda>k. []) \<rparr>
      in bindE (split (kfold cv) n) (\<lambda>folds.
         foldE (fit_fold ext (estimator_id cv) x y p) folds st0))"

subsection \<open>\<open>_summary_cv\<close>\<close>

text \<open>\<open>np.argmin\<close> on a one-dimensional array: the first position of the least entry.\<close>

fun argmin_from :: "nat list \<Rightarrow> nat \<Rightarrow> nat \<Rightarrow> nat \<Rightarrow> nat" where
  "argmin_from [] i best least = best"
| "argmin_from (x # xs) i best least =
     (if x < least then argmin_from xs (i + 1) i x else argmin_from xs (i + 1) best least)"

definition argmin :: "nat list \<Rightarrow> py_error + nat" where
  "argmin xs = (case xs of
                  [] \<Rightarrow> Inl (ValueError ''attempt to get argmin of an empty sequence'')
                | x # xs' \<Rightarrow> Inr (argmin_from xs' 1 0 x))"

text \<open>\<open>(self._ypred > 0).astype(float)\<close>.\<close>

definition pred_class :: "mat \<Rightarrow> mat" where
  "pred_class yp = map (map (\<lambda>v. if 0 < v then 1 else 0)) yp"

text \<open>
  \<open>((_pred_class - self.y[:, np.newaxis]) != 0).sum(axis=0)\<close>: the class matrix of shape
  \<open>(n, m)\<close> is broadcast against \<open>y\<close> as a column of shape \<open>(len(y), 1)\<close>.
\<close>

definition count_mis :: "mat \<Rightarrow> vec \<Rightarrow> py_error + nat list" where
  "count_mis pc y =
     (if length pc = length y
        then Inr (map (\<lambda>j. length (filter (\<lambda>(r, t). r ! j - t \<noteq> 0) (zip pc y))) [0..<ncols pc])
      else if length y = 1
        then Inr (map (\<lambda>j. length (filter (\<lambda>r. r ! j - hd y \<noteq> 0) pc)) [0..<ncols pc])
      else if length pc = 1
        then Inr (map (\<lambda>j. length (filter (\<lambda>t. hd pc ! j - t \<noteq> 0) y)) [0..<ncols pc])
      else Inl (ValueError ''operands could not be broadcast together''))"

text \<open>
  \<open>sum(a) / sum(b)\<close> on two Python lists of numpy floats: the sum of an empty list is the
  integer 0, and only the division of that by itself raises.
\<close>

definition div_sums :: "real list \<Rightarrow> real list \<Rightarrow> py_error + real" where
  "div_sums a b = (if a = [] \<and> b = [] then Inl ZeroDivisionError
                   else Inr (sum_list a / sum_list b))"

fun mapE :: "('a \<Rightarrow> py_error + 'b) \<Rightarrow> 'a list \<Rightarrow> py_error + 'b list" where
  "mapE f [] = Inr []"
| "mapE f (x # xs) = bindE (f x) (\<lambda>v. bindE (mapE f xs) (\<lambda>vs. Inr (v # vs)))"

definition need :: "'a option \<Rightarrow> py_error \<Rightarrow> py_error + 'a" where
  "need v e = (case v of None \<Rightarrow> Inl e | Some x \<Rightarrow> Inr x)"

text \<open>
  \<open>_summary_cv\<close>. The divisions by \<open>self._ssy\<close> and by the sums of \<open>ssx\<close> are divisions of
  real numbers: where numpy divides by a zero float and returns an infinity or NaN, the
  value here is not the program's, and nothing is stated about it.
\<close>

definition summary_cv :: "('s, 'e) cross_validation \<Rightarrow> py_error + ('s, 'e) cross_validation" where
  "summary_cv cv =
     bindE (need (h_ypred cv) TypeError) (\<lambda>yp.
     bindE (need (y_attr cv) TypeError) (\<lambda>y.
     let pc = pred_class yp in
     bindE (count_mis pc y) (\<lambda>nmc.
     bindE (argmin nmc) (\<lambda>j.
     bindE (need (h_pressy cv) AttributeError) (\<lambda>pr.
     bindE (need (h_ssy cv) TypeError) (\<lambda>s.
     let cv1 = cv\<lparr>h_opt_component := Some j, h_mis_classifications := Some nmc,
                    h_q2 := Some (map (\<lambda>c. 1 - sum_list (map (\<lambda>r. r ! c) pr) / s)
                                    [0..<ncols pr])\<rparr>
     in if estimator_id cv = ''opls'' then
          bindE (need (h_ssx cv1) TypeError) (\<lambda>sx.
          bindE (mapE (\<lambda>k. div_sums (sx k ''corr'') (sx k ''total'')) [1..<ncols pc + 1])
            (\<lambda>r2xcorr.
          bindE (mapE (\<lambda>k. div_sums (sx k ''xyo'') (sx k ''total'')) [1..<ncols pc + 1])
            (\<lambda>r2xyo.
          Inr (cv1\<lparr>h_r2xcorr := Some r2xcorr, h_r2xyo := Some r2xyo\<rparr>))))
        else Inr cv1))))))"

subsection \<open>\<open>_summary_fit\<close> and \<open>_create_optimal_model\<close>\<close>

definition add_mm :: "mat \<Rightarrow> mat \<Rightarrow> py_error + mat" where
  "add_mm a b =
     (if map length a = map length b
      then Inr (map (\<lambda>(r, s). map (\<lambda>(x, y). x + y) (zip r s)) (zip a b))
      else Inl (ValueError ''operands could not be broadcast together''))"

definition np_div :: "vec \<Rightarrow> vec \<Rightarrow> py_error + vec" where
  "np_div a b =
     (if length a = length b then Inr (map (\<lambda>(x, y). x / y) (zip a b))
      else if length a = 1 then Inr (map (\<lambda>y. hd a / y) b)
      else if length b = 1 then Inr (map (\<lambda>x. x / hd b) a)
      else Inl (ValueError ''operands could not be broadcast together''))"

definition item :: "vec \<Rightarrow> nat \<Rightarrow> py_error + real" where
  "item v i = (if i < length v then Inr (v ! i) else Inl IndexError)"

text \<open>The reconstruction of \<open>x\<close> and \<open>y\<close> and, for OPLS, the loading profiles.\<close>

definition summary_fit :: "('s, 'e) externals \<Rightarrow> ('s, 'e) cross_validation \<Rightarrow> mat \<Rightarrow> vec \<Rightarrow>
    py_error + ('s, 'e) cross_validation" where
  "summary_fit ext cv x y =
     bindE (need (h_opt_component cv) TypeError) (\<lambda>j.
     let npc = j + 1 in
     bindE (need (estimator cv) AttributeError) (\<lambda>e.
     bindE
       (if estimator_id cv = ''opls'' then
          (let tp = est_predictive_score ext e npc in
           bindE (dot_vv tp tp) (\<lambda>ss_tp.
           bindE (dot_vm tp x) (\<lambda>w.
           bindE (np_div w (map (\<lambda>c. sqrt ss_tp * sqrt (sumsq_v c)) (transpose x))) (\<lambda>corr.
           bindE (dot_mm (est_orthogonal_scores ext e)
                    (transpose (est_orthogonal_loadings ext e))) (\<lambda>xrec0.
           bindE (column (est_predictive_loadings ext e) (npc - 1)) (\<lambda>pl.
           bindE (add_mm xrec0 (map (\<lambda>t. map (\<lambda>l. t * l) pl) (est_predictive_score ext e npc)))
             (\<lambda>xrec.
           bindE (item (est_weights_y ext e) (npc - 1)) (\<lambda>wy.
           Inr (cv\<lparr>h_cov := Some (map (\<lambda>v. v / ss_tp) w), h_corr := Some corr\<rparr>,
                xrec, map (\<lambda>t. t * wy) (est_predictive_score ext e npc))))))))))
        else
          bindE (dot_mm (first_cols npc (est_scores_x ext e))
                   (transpose (first_cols npc (est_loadings_x ext e)))) (\<lambda>xrec.
          bindE (dot_mv (first_cols npc (est_scores_x ext e)) (take npc (est_weights_y ext e)))
            (\<lambda>yrec.
          Inr (cv, xrec, yrec))))
       (\<lambda>(cv1, xrec, yrec).
     bindE (sub_mm x xrec) (\<lambda>dx.
     bindE (np_sub y yrec) (\<lambda>dy.
     Inr (cv1\<lparr>h_r2x := Some (1 - sumsq_m dx / sumsq_m x),
              h_r2y := Some (1 - sumsq_v dy / sumsq_v y)\<rparr>))))))"

definition create_optimal_model :: "('s, 'e) externals \<Rightarrow> ('s, 'e) cross_validation \<Rightarrow>
    mat \<Rightarrow> vec \<Rightarrow> py_error + ('s, 'e) cross_validation" where
  "create_optimal_model ext cv x y =
     (let (s1, y_scale) = sc_fit_v ext (scaler cv) y;
          (s2, x_scale) = sc_fit_m ext s1 x in
      bindE (need (h_opt_component cv) TypeError) (\<lambda>j.
      let npc = j + 1 in
      bindE (need (estimator cv) AttributeError) (\<lambda>e0.
      summary_fit ext
        (cv\<lparr>scaler := s2, estimator := Some (est_fit ext e0 x_scale y_scale npc)\<rparr>)
        x_scale y_scale)))"

subsection \<open>\<open>fit\<close> and \<open>predict\<close>\<close>

text \<open>The block ``save metrics'' of \<open>fit\<close>: the loop's results become attributes.\<close>

definition save_metrics :: "('s, 'e) cross_validation \<Rightarrow> ('s, 'e) fit_state \<Rightarrow> mat \<Rightarrow> vec \<Rightarrow>
    ('s, 'e) cross_validation" where
  "save_metrics cv st x y =
     (let cv1 = cv\<lparr>scaler := st_scaler st, estimator := st_estimator st,
                    h_ypred := Some (first_cols (npc0 st) (values_of (ypred st))),
                    h_pressy := Some (first_cols (npc0 st) (values_of (pressy st))),
                    h_ssy := Some (sum_list (ssy st)),
                    h_n := Some (length x),
                    y_attr := Some y\<rparr>
      in if estimator_id cv = ''opls''
         then cv1\<lparr>h_Tortho := Some (first_cols (npc0 st) (values_of (tortho st))),
                  h_Tpred := Some (first_cols (npc0 st) (values_of (tpred st))),
                  h_ssx := Some (ssx st), h_pcv := Some (pcv st)\<rparr>
         else cv1)"

definition fit :: "('s, 'e) externals \<Rightarrow> (string \<Rightarrow> nat \<Rightarrow> nat \<Rightarrow> real) \<Rightarrow>
    ('s, 'e) cross_validation \<Rightarrow> mat \<Rightarrow> vec \<Rightarrow> py_error + ('s, 'e) cross_validation" where
  "fit ext g cv x y =
     bindE (cv_loop ext g cv x y) (\<lambda>st.
     bindE (summary_cv (save_metrics cv st x y)) (\<lambda>cv3.
     create_optimal_model ext cv3 x y))"

definition predict :: "('s, 'e) externals \<Rightarrow> ('s, 'e) cross_validation \<Rightarrow> mat \<Rightarrow>
    py_error + vec" where
  "predict ext cv x =
     bindE (need (h_opt_component cv) TypeError) (\<lambda>j.
     let npc = j + 1;
         x1 = sc_scale_m ext (scaler cv) x in
     bindE (need (estimator cv) AttributeError) (\<lambda>e.
     let x2 = (if estimator_id cv = ''opls'' then fst (est_correct ext e x1 npc) else x1)
     in Inr (fst (est_predict ext e x2 npc))))"

subsection \<open>The properties\<close>

text \<open>
  A property reads attributes of the object. An attribute that is still \<open>None\<close> cannot be
  subscripted (\<open>TypeError\<close>), one that does not exist cannot be read (\<open>AttributeError\<close>).
\<close>

text \<open>
  An object on which an array attribute is set while \<open>_opt_component\<close> is still \<open>None\<close>
  exists only after \<open>fit\<close> was aborted by an exception; \<open>fit\<close> here returns no object
  then, and the accessors are not meant for that state (numpy would read the \<open>None\<close> index
  as a new axis).
\<close>

definition opls_only :: py_error where
  "opls_only = ValueError ''This is only applicable for OPLS/OPLS-DA.''"

definition orthogonal_score :: "('s, 'e) cross_validation \<Rightarrow> py_error + vec" where
  "orthogonal_score cv =
     (if estimator_id cv \<noteq> ''opls'' then Inl opls_only
      else bindE (need (h_Tortho cv) TypeError) (\<lambda>t.
           bindE (need (h_opt_component cv) TypeError) (\<lambda>j. column t j)))"

definition predictive_score :: "('s, 'e) cross_validation \<Rightarrow> py_error + vec" where
  "predictive_score cv =
     (if estimator_id cv \<noteq> ''opls'' then Inl opls_only
      else bindE (need (h_Tpred cv) TypeError) (\<lambda>t.
           bindE (need (h_opt_component cv) TypeError) (\<lambda>j. column t j)))"

definition scores :: "('s, 'e) externals \<Rightarrow> ('s, 'e) cross_validation \<Rightarrow> py_error + mat + vec" where
  "scores ext cv =
     (if estimator_id cv = ''opls''
      then bindE (predictive_score cv) (\<lambda>v. Inr (Inr v))
      else bindE (need (estimator cv) AttributeError) (\<lambda>e. Inr (Inl (est_scores_x ext e))))"

definition q2 :: "('s, 'e) cross_validation \<Rightarrow> py_error + real" where
  "q2 cv = bindE (need (h_q2 cv) TypeError) (\<lambda>q.
           bindE (need (h_opt_component cv) TypeError) (\<lambda>j. item q j))"

definition optimal_component_num :: "('s, 'e) cross_validation \<Rightarrow> py_error + nat" where
  "optimal_component_num cv = bindE (need (h_opt_component cv) TypeError) (\<lambda>j. Inr (j + 1))"

definition R2Xcorr :: "('s, 'e) cross_validation \<Rightarrow> py_error + real" where
  "R2Xcorr cv =
     (if estimator_id cv \<noteq> ''opls'' then Inl opls_only
      else bindE (need (h_r2xcorr cv) AttributeError) (\<lambda>r.
           bindE (need (h_opt_component cv) TypeError) (\<lambda>j. item r j)))"

definition R2XYO :: "('s, 'e) cross_validation \<Rightarrow> py_error + real" where
  "R2XYO cv =
     (if estimator_id cv \<noteq> ''opls'' then Inl opls_only
      else bindE (need (h_r2xyo cv) AttributeError) (\<lambda>r.
           bindE (need (h_opt_component cv) TypeError) (\<lambda>j. item r j)))"

definition R2X :: "('s, 'e) cross_validation \<Rightarrow> py_error + real" where
  "R2X cv = need (h_r2x cv) AttributeError"

definition R2y :: "('s, 'e) cross_validation \<Rightarrow> py_error + real" where
  "R2y cv = need (h_r2y cv) AttributeError"

definition correlation :: "('s, 'e) cross_validation \<Rightarrow> py_error + vec" where
  "correlation cv =
     (if estimator_id cv \<noteq> ''opls'' then Inl opls_only else need (h_corr cv) AttributeError)"

definition covariance :: "('s, 'e) cross_validation \<Rightarrow> py_error + vec" where
  "covariance cv =
     (if estimator_id cv \<noteq> ''opls'' then Inl opls_only else need (h_cov cv) AttributeError)"

definition loadings_cv :: "('s, 'e) cross_validation \<Rightarrow> py_error + mat" where
  "loadings_cv cv =
     (if estimator_id cv \<noteq> ''opls'' then Inl opls_only
      else bindE (need (h_pcv cv) TypeError) (\<lambda>d.
           bindE (need (h_opt_component cv) TypeError) (\<lambda>j. Inr (d (j + 1)))))"

definition min_nmc :: "('s, 'e) cross_validation \<Rightarrow> py_error + nat" where
  "min_nmc cv = bindE (need (h_mis_classifications cv) TypeError) (\<lambda>m.
                bindE (need (h_opt_component cv) TypeError) (\<lambda>j.
                if j < length m then Inr (m ! j) else Inl IndexError))"

definition mis_classifications :: "('s, 'e) cross_validation \<Rightarrow> py_error + nat list option" where
  "mis_classifications cv = Inr (h_mis_classifications cv)"

subsection \<open>A concrete instance\<close>

text \<open>
  A small scaler and estimator on which the model can be run: the scaler leaves its
  argument as it is; the estimator remembers the shape of its training data and the number
  of components, predicts the row sums, and reports scores and loadings made of ones.
\<close>

definition toy :: "(unit, nat \<times> nat \<times> nat) externals" where
  "toy = \<lparr> new_Scaler = (\<lambda>_. ()), new_PLS = (0, 0, 0), new_OPLS = (0, 0, 0),
           sc_fit_m = (\<lambda>s m. (s, m)), sc_fit_v = (\<lambda>s v. (s, v)),
           sc_scale_m = (\<lambda>s m. m), sc_scale_v = (\<lambda>s v. v),
           est_fit = (\<lambda>e x y n. (length x, ncols x, n)),
           est_predict = (\<lambda>e x k. (map sum_list x, map hd x)),
           est_correct = (\<lambda>e x k. (x, map (\<lambda>r. replicate k (hd r)) x)),
           est_orthogonal_loadings = (\<lambda>(n, p, a). replicate p (replicate a 1)),
           est_orthogonal_scores = (\<lambda>(n, p, a). replicate n (replicate a 1)),
           est_predictive_loadings = (\<lambda>(n, p, a). replicate p (replicate a 1)),
           est_predictive_scores = (\<lambda>(n, p, a). replicate n (replicate a 1)),
           est_predictive_score = (\<lambda>(n, p, a) k. replicate n 1),
           est_weights_y = (\<lambda>(n, p, a). replicate a 1),
           est_scores_x = (\<lambda>(n, p, a). replicate n (replicate a 1)),
           est_loadings_x = (\<lambda>(n, p, a). replicate p (replicate a 1)) \<rparr>"

text \<open>The object \<open>CrossValidation(estimator=est, kfold=k)\<close> over these collaborators.\<close>

definition toy_cv :: "string \<Rightarrow> int \<Rightarrow> (unit, nat \<times> nat \<times> nat) cross_validation" where
  "toy_cv est k = projr (init toy est k ''pareto'')"

subsection \<open>Auxiliary notions for the proofs\<close>

text \<open>
  The scaler and the sum of squares of the scaled test response, fold by fold: in one fold
  the scaler is fitted on the training rows of \<open>x\<close> and then on the training entries of
  \<open>y\<close>, and in that state scales the held-out entries of \<open>y\<close>.
\<close>

definition fold_scaler :: "('s, 'e) externals \<Rightarrow> mat \<Rightarrow> vec \<Rightarrow> 's \<Rightarrow> nat list \<times> nat list \<Rightarrow> 's" where
  "fold_scaler ext x y s fd =
     fst (sc_fit_v ext (fst (sc_fit_m ext s (map (\<lambda>i. x ! i) (fst fd))))
            (map (\<lambda>i. y ! i) (fst fd)))"

definition fold_ssy :: "('s, 'e) externals \<Rightarrow> mat \<Rightarrow> vec \<Rightarrow> 's \<Rightarrow> nat list \<times> nat list \<Rightarrow> real" where
  "fold_ssy ext x y s fd =
     sumsq_v (sc_scale_v ext (fold_scaler ext x y s fd) (map (\<lambda>i. y ! i) (snd fd)))"

fun ssy_of_folds :: "('s, 'e) externals \<Rightarrow> mat \<Rightarrow> vec \<Rightarrow> 's \<Rightarrow> (nat list \<times> nat list) list \<Rightarrow>
    real list" where
  "ssy_of_folds ext x y s [] = []"
| "ssy_of_folds ext x y s (fd # fds) =
     fold_ssy ext x y s fd # ssy_of_folds ext x y (fold_scaler ext x y s fd) fds"


text \<open>The attributes that the final refit leaves as they are.\<close>

definition same_cv :: "('s, 'e) cross_validation \<Rightarrow> ('s, 'e) cross_validation \<Rightarrow> bool" where
  "same_cv cv cv' \<longleftrightarrow>
     estimator_id cv' = estimator_id cv \<and> kfold cv' = kfold cv \<and>
     h_opt_component cv' = h_opt_component cv \<and>
     h_ypred cv' = h_ypred cv \<and> h_pressy cv' = h_pressy cv \<and>
     h_Tortho cv' = h_Tortho cv \<and> h_Tpred cv' = h_Tpred cv \<and>
     h_mis_classifications cv' = h_mis_classifications cv \<and> h_q2 cv' = h_q2 cv \<and>
     h_ssy cv' = h_ssy cv \<and> y_attr cv' = y_attr cv \<and> h_n cv' = h_n cv \<and>
     h_ssx cv' = h_ssx cv \<and> h_pcv cv' = h_pcv cv \<and>
     h_r2xcorr cv' = h_r2xcorr cv \<and> h_r2xyo cv' = h_r2xyo cv"

text \<open>The row lengths of the four accumulator arrays.\<close>

definition shapes :: "('s, 'e) fit_state \<Rightarrow> nat list list" where
  "shapes st = [map length (ypred st), map length (pressy st),
                map length (tortho st), map length (tpred st)]"

text \<open>The ghost history of a cell: the index arrays of the assignments that wrote it.\<close>

definition hist :: "accmat \<Rightarrow> nat \<Rightarrow> nat \<Rightarrow> nat list list" where
  "hist a r c = snd (a ! r ! c)"

definition in_acc :: "accmat \<Rightarrow> nat \<Rightarrow> nat \<Rightarrow> bool" where
  "in_acc a r c \<longleftrightarrow> r < length a \<and> c < length (a ! r)"

text \<open>One assignment \<open>a[idx, col] = ...\<close> as seen from the cell \<open>(r, c)\<close>.\<close>

definition wr :: "nat list \<Rightarrow> nat \<Rightarrow> nat \<Rightarrow> nat \<Rightarrow> nat list list" where
  "wr idx col r c = (if r \<in> set idx \<and> c = col then [idx] else [])"

text \<open>The scaled test rows of \<open>x\<close> in a fold that starts with the scaler \<open>s\<close>.\<close>

definition fold_xte_scale :: "('s, 'e) externals \<Rightarrow> mat \<Rightarrow> 's \<Rightarrow> nat list \<times> nat list \<Rightarrow> mat" where
  "fold_xte_scale ext x s fd =
     sc_scale_m ext (fst (sc_fit_m ext s (map (\<lambda>i. x ! i) (fst fd)))) (map (\<lambda>i. x ! i) (snd fd))"

text \<open>The writes of a fold with test indices \<open>ti\<close> and \<open>n\<close> components, seen from \<open>(r, c)\<close>.\<close>

definition fw :: "nat list \<Rightarrow> nat \<Rightarrow> nat \<Rightarrow> nat \<Rightarrow> nat list list" where
  "fw ti n r c = (if r \<in> set ti \<and> c < n then [ti] else [])"

definition fw0 :: "nat list \<Rightarrow> nat \<Rightarrow> nat \<Rightarrow> nat \<Rightarrow> nat list list" where
  "fw0 ti n r c = (if r \<in> set ti \<and> c = 0 then replicate n ti else [])"

subsection \<open>Properties of the fold splitter\<close>

lemma mask_select_upt:
  "mask_select [0..<n] (map P [0..<n]) = filter P [0..<n]"
proof -
  have "zip [0..<n] (map P [0..<n]) = map (\<lambda>j. (j, P j)) [0..<n]"
    by (simp add: zip_map2 zip_same_conv_map)
  then show ?thesis
    by (simp add: mask_select_def filter_map comp_def)
qed

lemma slice_assign_replicate:
  "slice_assign lo hi False (replicate n True) = map (\<lambda>j. \<not> (lo \<le> j \<and> j < hi)) [0..<n]"
proof -
  have "zip [0..<n] (replicate n True) = map (\<lambda>j. (j, True)) [0..<n]"
    by (simp add: list_eq_iff_nth_eq)
  then show ?thesis
    by (simp add: slice_assign_def comp_def)
qed

lemma filter_upt_interval:
  assumes "hi \<le> n"
  shows "filter (\<lambda>j. lo \<le> j \<and> j < hi) [0..<n] = [lo..<hi]"
proof -
  have "sorted (filter (\<lambda>j. lo \<le> j \<and> j < hi) [0..<n])" "distinct (filter (\<lambda>j. lo \<le> j \<and> j < hi) [0..<n])"
    by (simp_all add: sorted_wrt_filter)
  moreover have "sorted [lo..<hi]" "distinct [lo..<hi]" by simp_all
  moreover have "set (filter (\<lambda>j. lo \<le> j \<and> j < hi) [0..<n]) = set [lo..<hi]"
    using assms by auto
  ultimately show ?thesis
    by (metis sorted_distinct_set_unique)
qed

lemma split_fold_test:
  "snd (split_fold n blk i) = [blk * i..<min (blk * (i + 1)) n]"
proof -
  have "snd (split_fold n blk i) =
        filter (\<lambda>j. blk * i \<le> j \<and> j < min (blk * (i + 1)) n) [0..<n]"
    unfolding split_fold_def Let_def slice_assign_replicate
    by (auto simp add: comp_def mask_select_upt intro!: filter_cong)
  also have "\<dots> = [blk * i..<min (blk * (i + 1)) n]"
    by (rule filter_upt_interval) simp
  finally show ?thesis .
qed

lemma split_fold_train:
  "fst (split_fold n blk i) =
     filter (\<lambda>j. \<not> (blk * i \<le> j \<and> j < min (blk * (i + 1)) n)) [0..<n]"
  unfolding split_fold_def Let_def slice_assign_replicate
  by (simp add: mask_select_upt)

lemma split_fold_train_set:
  "set (fst (split_fold n blk i)) = {0..<n} - set (snd (split_fold n blk i))"
  unfolding split_fold_train split_fold_test by auto

lemma split_Inr:
  "1 \<le> kf \<Longrightarrow>
   split kf n = Inr (map (\<lambda>i. split_fold n (n div nat kf) i) [0..<nat kf])"
proof -
  assume k: "1 \<le> kf"
  have "nat (int n div kf) = n div nat kf"
    using k by (metis int_nat_eq nat_int not_one_le_zero order.trans linear zdiv_int)
  with k show ?thesis by (simp add: split_def Let_def)
qed

lemma split_fold_test_disjoint:
  assumes "i \<noteq> j"
  shows "set (snd (split_fold n blk i)) \<inter> set (snd (split_fold n blk j)) = {}"
proof -
  have le: "blk * (a + 1) \<le> blk * b" if "a < b" for a b :: nat
  proof -
    from that have "a + 1 \<le> b" by simp
    then show ?thesis by (rule mult_le_mono2)
  qed
  consider "i < j" | "j < i" using assms by (meson nat_neq_iff)
  then show ?thesis
  proof cases
    case 1
    from le[OF 1] show ?thesis unfolding split_fold_test by auto
  next
    case 2
    from le[OF 2] show ?thesis unfolding split_fold_test by auto
  qed
qed

lemma split_fold_test_cover:
  assumes "0 < k"
  shows "(\<Union>i<k. set (snd (split_fold n (n div k) i))) = {0..<(n div k) * k}"
proof (intro set_eqI iffI)
  fix x
  assume "x \<in> (\<Union>i<k. set (snd (split_fold n (n div k) i)))"
  then obtain i where i: "i < k" "n div k * i \<le> x" "x < n div k * (i + 1)"
    unfolding split_fold_test by auto
  from i(1) have "i + 1 \<le> k" by simp
  then have "n div k * (i + 1) \<le> n div k * k"
    by (rule mult_le_mono2)
  with i(3) show "x \<in> {0..<(n div k) * k}" by simp
next
  fix x
  assume "x \<in> {0..<(n div k) * k}"
  then have x: "x < n div k * k" by simp
  then have pos: "0 < n div k" by (metis mult_0 not_gr_zero not_less_zero)
  define i where "i = x div (n div k)"
  have ik: "i < k"
    unfolding i_def using x by (intro less_mult_imp_div_less) (simp add: ac_simps)
  have lo: "n div k * i \<le> x"
    unfolding i_def by simp
  have hi: "x < n div k * (i + 1)"
    unfolding i_def using pos dividend_less_times_div[of "n div k" x] by (simp add: ac_simps)
  have "n div k * (i + 1) \<le> n"
  proof -
    from ik have "i + 1 \<le> k" by simp
    then have "n div k * (i + 1) \<le> n div k * k" by (rule mult_le_mono2)
    also have "\<dots> \<le> n" by (simp add: ac_simps)
    finally show ?thesis .
  qed
  with lo hi have "x \<in> set (snd (split_fold n (n div k) i))"
    unfolding split_fold_test by simp
  with ik show "x \<in> (\<Union>i<k. set (snd (split_fold n (n div k) i)))" by blast
qed

subsection \<open>Claims about the fold splitter\<close>

text \<open>
  C3. For every \<open>n \<ge> 1\<close> and \<open>k \<ge> 1\<close>, with \<open>blk = n // k\<close>, the splitter yields exactly
  \<open>k\<close> pairs; the test indices of fold \<open>i\<close> are exactly the positions
  \<open>[blk * i, min (blk * (i + 1)) n)\<close> and its train indices are the complement, in
  increasing order. When \<open>k\<close> divides \<open>n\<close>, the \<open>k\<close> test sets are pairwise disjoint and their
  union is \<open>{0, ..., n - 1}\<close>.
\<close>

theorem split_blocks:
  assumes "1 \<le> n" and "1 \<le> kf"
  shows "\<exists>folds. split kf n = Inr folds \<and> length folds = nat kf \<and>
           (\<forall>i < nat kf.
              snd (folds ! i) =
                [nat (int n div kf) * i..<min (nat (int n div kf) * (i + 1)) n] \<and>
              fst (folds ! i) = filter (\<lambda>j. j \<notin> set (snd (folds ! i))) [0..<n] \<and>
              set (fst (folds ! i)) = {0..<n} - set (snd (folds ! i))) \<and>
           (int n mod kf = 0 \<longrightarrow>
              (\<forall>i < nat kf. \<forall>j < nat kf. i \<noteq> j \<longrightarrow>
                 set (snd (folds ! i)) \<inter> set (snd (folds ! j)) = {}) \<and>
              (\<Union>i < nat kf. set (snd (folds ! i))) = {0..<n})"
proof -
  define k where "k = nat kf"
  define blk where "blk = n div k"
  define folds where "folds = map (\<lambda>i. split_fold n blk i) [0..<k]"
  have kpos: "0 < k" using assms(2) by (simp add: k_def)
  have blk: "nat (int n div kf) = blk"
    using assms(2) unfolding blk_def k_def
    by (metis int_nat_eq nat_int not_one_le_zero order.trans linear zdiv_int)
  have sp: "split kf n = Inr folds"
    using split_Inr[OF assms(2)] by (simp add: folds_def blk_def k_def)
  have len: "length folds = k" by (simp add: folds_def)
  have nth: "folds ! i = split_fold n blk i" if "i < k" for i
    using that by (simp add: folds_def)
  have blocks: "\<forall>i < k.
              snd (folds ! i) = [blk * i..<min (blk * (i + 1)) n] \<and>
              fst (folds ! i) = filter (\<lambda>j. j \<notin> set (snd (folds ! i))) [0..<n] \<and>
              set (fst (folds ! i)) = {0..<n} - set (snd (folds ! i))"
  proof (intro allI impI conjI)
    fix i assume i: "i < k"
    show "snd (folds ! i) = [blk * i..<min (blk * (i + 1)) n]"
      by (simp only: nth[OF i] split_fold_test)
    show "fst (folds ! i) = filter (\<lambda>j. j \<notin> set (snd (folds ! i))) [0..<n]"
      unfolding nth[OF i] split_fold_train split_fold_test
      by (rule filter_cong) auto
    show "set (fst (folds ! i)) = {0..<n} - set (snd (folds ! i))"
      by (simp only: nth[OF i] split_fold_train_set)
  qed
  have part: "(\<forall>i < k. \<forall>j < k. i \<noteq> j \<longrightarrow>
                 set (snd (folds ! i)) \<inter> set (snd (folds ! j)) = {}) \<and>
              (\<Union>i < k. set (snd (folds ! i))) = {0..<n}"
    if dv: "int n mod kf = 0"
  proof (intro conjI allI impI)
    fix i j assume "i < k" "j < k" "i \<noteq> j"
    then show "set (snd (folds ! i)) \<inter> set (snd (folds ! j)) = {}"
      by (simp add: nth split_fold_test_disjoint)
  next
    have "int n mod int k = 0" using dv assms(2) by (simp add: k_def)
    then have "n mod k = 0" by (metis of_nat_0 of_nat_eq_iff zmod_int)
    then have full: "blk * k = n" unfolding blk_def by (simp add: ac_simps mod_eq_0_iff_dvd)
    have "(\<Union>i < k. set (snd (folds ! i))) = (\<Union>i < k. set (snd (split_fold n blk i)))"
      by (simp add: nth)
    also have "\<dots> = {0..<blk * k}"
      unfolding blk_def by (rule split_fold_test_cover[OF kpos])
    finally show "(\<Union>i < k. set (snd (folds ! i))) = {0..<n}" by (simp add: full)
  qed
  show ?thesis
    unfolding blk k_def[symmetric]
    using sp len blocks part by blast
qed

theorem split_blocks_witness:
  "\<exists>folds. split 3 6 = Inr folds \<and> length folds = 3 \<and>
     snd (folds ! 0) = [0, 1] \<and> snd (folds ! 1) = [2, 3] \<and> snd (folds ! 2) = [4, 5] \<and>
     fst (folds ! 1) = [0, 1, 4, 5] \<and>
     (\<Union>i < 3. set (snd (folds ! i))) = {0..<6}"
proof -
  have h1: "1 \<le> (6::nat)" and h2: "1 \<le> (3::int)" by simp_all
  have dv: "int 6 mod 3 = 0" by simp
  from split_blocks[OF h1 h2] obtain folds where
    f: "split 3 6 = Inr folds" "length folds = nat 3"
    and b: "\<forall>i < nat 3. snd (folds ! i) =
                [nat (int 6 div 3) * i..<min (nat (int 6 div 3) * (i + 1)) 6] \<and>
              fst (folds ! i) = filter (\<lambda>j. j \<notin> set (snd (folds ! i))) [0..<6] \<and>
              set (fst (folds ! i)) = {0..<6} - set (snd (folds ! i))"
    and u: "int 6 mod 3 = 0 \<longrightarrow>
              (\<forall>i < nat 3. \<forall>j < nat 3. i \<noteq> j \<longrightarrow>
                 set (snd (folds ! i)) \<inter> set (snd (folds ! j)) = {}) \<and>
              (\<Union>i < nat 3. set (snd (folds ! i))) = {0..<6}"
    by blast
  have d: "nat (int 6 div 3) = 2" by simp
  have t0: "snd (folds ! 0) = [0, 1]" using b[rule_format, of 0] unfolding d by (simp add: upt_rec)
  have t1: "snd (folds ! 1) = [2, 3]" using b[rule_format, of 1] unfolding d
    by (simp add: upt_rec[of 2] upt_rec[of 3])
  have t2: "snd (folds ! 2) = [4, 5]" using b[rule_format, of 2] unfolding d
    by (simp add: upt_rec[of 4] upt_rec[of 5])
  have upt6: "[0..<6] = [0, 1, 2, 3, 4, 5::nat]" by (simp add: upt_rec)
  have f1: "fst (folds ! 1) = [0, 1, 4, 5]" using b[rule_format, of 1] unfolding t1 upt6 by simp
  have "(\<Union>i < 3. set (snd (folds ! i))) = {0..<6}" using u dv by simp
  with f t0 t1 t2 f1 show ?thesis by auto
qed

lemma split_2_5:
  "\<exists>folds. split 2 5 = Inr folds \<and>
     folds = [([2, 3, 4], [0, 1]), ([0, 1, 4], [2, 3])] \<and>
     snd (last folds) = [2, 3] \<and> 4 \<notin> (\<Union>f \<in> set folds. set (snd f))"
proof -
  have upt5: "[0..<5] = [0, 1, 2, 3, 4::nat]" by (simp add: upt_rec)
  have upt2: "[0..<2] = [0, 1::nat]" by (simp add: upt_rec)
  have k: "nat 2 = 2" "nat (int 5 div 2) = 2" by simp_all
  have r: "replicate 5 True = [True, True, True, True, True]"
    by (simp add: numeral_eq_Suc)
  have "split 2 5 = Inr [([2, 3, 4], [0, 1]), ([0, 1, 4], [2, 3])]"
    unfolding split_def Let_def k upt2
    by (simp add: split_fold_def slice_assign_def mask_select_def upt5 r)
  then show ?thesis by simp
qed

subsection \<open>Evaluation rules\<close>

lemmas np_defs = bindE_def take_idx_def sumsq_v_def sumsq_m_def np_sub_def column_def
  item00_def dot_vv_def dot_vm_def dot_mm_def dot_mv_def sub_mm_def np_empty_def put_cell_def
  out_of_bounds_def assign_scalar_def assign_col_def values_of_def first_cols_def ncols_def
  ssx_append_def add_mm_def np_div_def item_def need_def div_sums_def pred_class_def
  count_mis_def argmin_def

lemmas loop_defs = opls_sums_def store_pred_def store_scores_def fit_component_def
  fit_fold_def cv_loop_def split_def split_fold_def slice_assign_def mask_select_def

lemmas fit_defs = fit_def save_metrics_def summary_cv_def create_optimal_model_def summary_fit_def

lemmas prop_defs = orthogonal_score_def predictive_score_def scores_def q2_def
  optimal_component_num_def R2Xcorr_def R2XYO_def R2X_def R2y_def correlation_def
  covariance_def loadings_cv_def min_nmc_def mis_classifications_def

lemmas toy_defs = toy_def toy_cv_def init_def

lemma upt_small:
  "[0..<1] = [0::nat]" "[0..<2] = [0, 1::nat]" "[1..<2] = [1::nat]" "[1..<3] = [1, 2::nat]"
  "[0..<4] = [0, 1, 2, 3::nat]"
  by (simp_all add: upt_rec)

lemma bindE_Inr_iff: "bindE m f = Inr y \<longleftrightarrow> (\<exists>x. m = Inr x \<and> f x = Inr y)"
  by (cases m) (simp_all add: bindE_def)

lemma bindE_Inr [simp]: "bindE (Inr x) f = f x"
  by (simp add: bindE_def)

lemma bindE_Inl [simp]: "bindE (Inl e) f = Inl e"
  by (simp add: bindE_def)

lemma need_simps [simp]: "need None e = Inl e" "need (Some x) e = Inr x"
  by (simp_all add: need_def)

lemma need_not_usage: "e \<noteq> opls_only \<Longrightarrow> need v e \<noteq> Inl opls_only"
  by (cases v) simp_all

lemma column_not_usage: "column m j \<noteq> Inl opls_only"
  by (simp add: column_def opls_only_def)

lemma item_not_usage: "item v j \<noteq> Inl opls_only"
  by (simp add: item_def opls_only_def)

subsection \<open>\<open>fit\<close> without an estimator\<close>

lemma take_idx_in_range:
  "set idx \<subseteq> {0..<length a} \<Longrightarrow> take_idx a idx = Inr (map (\<lambda>i. a ! i) idx)"
  by (auto simp add: take_idx_def list_ex_iff)

lemma split_first_fold:
  assumes "1 \<le> k"
  shows "\<exists>fds. split k n = Inr (split_fold n (n div nat k) 0 # fds)"
proof -
  have "[0..<nat k] = 0 # [1..<nat k]" using assms by (simp add: upt_conv_Cons)
  then show ?thesis using split_Inr[OF assms, of n] by simp
qed

lemma split_fold_in_range:
  "set (fst (split_fold n blk i)) \<subseteq> {0..<n}" "set (snd (split_fold n blk i)) \<subseteq> {0..<n}"
  unfolding split_fold_train split_fold_test by auto

lemma fit_no_estimator:
  assumes "estimator cv = None" and "1 \<le> kfold cv" and "length y = length x"
  shows "fit ext g cv x y = Inl AttributeError"
proof -
  define n where "n = length x"
  define fd where "fd = split_fold n (n div nat (kfold cv)) 0"
  obtain fds where s: "split (kfold cv) n = Inr (fd # fds)"
    using split_first_fold[OF assms(2), of n] unfolding fd_def by blast
  have tr: "set (fst fd) \<subseteq> {0..<n}" "set (snd fd) \<subseteq> {0..<n}"
    unfolding fd_def by (rule split_fold_in_range)+
  have "fit_fold ext est x y p st fd = Inl AttributeError" if "st_estimator st = None"
    for p est st
    unfolding fit_fold_def Let_def
    using tr assms(3) that by (simp add: take_idx_in_range n_def split_beta)
  then have "cv_loop ext g cv x y = Inl AttributeError"
    unfolding cv_loop_def Let_def n_def[symmetric] s by (simp add: assms(1))
  then show ?thesis by (simp add: fit_def)
qed

subsection \<open>Claims about construction and the properties\<close>

text \<open>
  C6. The statement that an estimator identifier other than \<open>"pls"\<close> and \<open>"opls"\<close> is refused at
  construction fails on the code: \<open>__init__\<close> has no branch for it and raises nothing. For
  the identifier \<open>"svm"\<close> the object is built, without an \<open>estimator\<close> attribute, and the
  call of \<open>fit\<close> is what fails.
\<close>

theorem init_unknown_estimator_not_eager:
  "\<not> isl (init toy ''svm'' 10 ''pareto'') \<and>
   estimator (toy_cv ''svm'' 10) = None \<and>
   fit toy (\<lambda>a r c. 0) (toy_cv ''svm'' 10) [[1], [-1]] [1, 0] = Inl AttributeError"
proof -
  have e: "estimator (toy_cv ''svm'' 10) = None" "1 \<le> kfold (toy_cv ''svm'' 10)"
    by (simp_all add: toy_defs)
  have l: "length [1, 0::real] = length [[1], [-1::real]]" by simp
  from fit_no_estimator[OF e l] e(1) show ?thesis by (simp add: init_def)
qed

text \<open>
  C6, amended. For an identifier other than \<open>"pls"\<close> and \<open>"opls"\<close> the constructor succeeds
  and leaves the object without an estimator; with \<open>kfold \<ge> 1\<close> and a response as long as
  the data, \<open>fit\<close> then raises \<open>AttributeError\<close> at its first use of the estimator.
\<close>

theorem init_unknown_estimator_deferred:
  assumes "est \<noteq> ''pls''" and "est \<noteq> ''opls''" and "1 \<le> k" and "length y = length x"
  shows "\<exists>cv. init ext est k sc = Inr cv \<and> estimator cv = None \<and> estimator_id cv = est \<and>
           fit ext g cv x y = Inl AttributeError"
proof -
  define cv where "cv = projr (init ext est k sc)"
  have i: "init ext est k sc = Inr cv" by (simp add: cv_def init_def)
  have e: "estimator cv = None" "estimator_id cv = est" "kfold cv = k"
    using assms(1,2) by (simp_all add: cv_def init_def)
  have "fit ext g cv x y = Inl AttributeError"
    using fit_no_estimator[of cv y x ext g] e assms(3,4) by simp
  with i e show ?thesis by blast
qed

theorem init_unknown_estimator_deferred_witness:
  "\<exists>cv. init toy ''svm'' 2 ''pareto'' = Inr cv \<and> estimator cv = None \<and>
     estimator_id cv = ''svm'' \<and>
     fit toy (\<lambda>a r c. 0) cv [[1], [-1]] [1, 0] = Inl AttributeError"
proof -
  have "''svm'' \<noteq> ''pls''" "''svm'' \<noteq> ''opls''" "1 \<le> (2::int)"
    "length [1, 0::real] = length [[1], [-1::real]]" by simp_all
  from init_unknown_estimator_deferred[OF this] show ?thesis .
qed

text \<open>
  C7. On an object whose estimator identifier is not \<open>"opls"\<close>, each of the properties
  \<open>orthogonal_score\<close>, \<open>predictive_score\<close>, \<open>R2Xcorr\<close>, \<open>R2XYO\<close>, \<open>correlation\<close>,
  \<open>covariance\<close> and \<open>loadings_cv\<close> raises the \<open>ValueError\<close> of the accessor's guard,
  whatever the other attributes hold; with the identifier \<open>"opls"\<close> none of them raises it.
\<close>

theorem opls_only_properties:
  "(estimator_id cv \<noteq> ''opls'' \<longrightarrow>
      orthogonal_score cv = Inl opls_only \<and> predictive_score cv = Inl opls_only \<and>
      R2Xcorr cv = Inl opls_only \<and> R2XYO cv = Inl opls_only \<and>
      correlation cv = Inl opls_only \<and> covariance cv = Inl opls_only \<and>
      loadings_cv cv = Inl opls_only) \<and>
   (estimator_id cv = ''opls'' \<longrightarrow>
      orthogonal_score cv \<noteq> Inl opls_only \<and> predictive_score cv \<noteq> Inl opls_only \<and>
      R2Xcorr cv \<noteq> Inl opls_only \<and> R2XYO cv \<noteq> Inl opls_only \<and>
      correlation cv \<noteq> Inl opls_only \<and> covariance cv \<noteq> Inl opls_only \<and>
      loadings_cv cv \<noteq> Inl opls_only)"
proof (intro conjI impI)
  assume o: "estimator_id cv = ''opls''"
  have ne: "TypeError \<noteq> opls_only" "AttributeError \<noteq> opls_only"
    by (simp_all add: opls_only_def)
  show "orthogonal_score cv \<noteq> Inl opls_only"
    using o ne by (cases "h_Tortho cv"; cases "h_opt_component cv")
      (simp_all add: orthogonal_score_def column_not_usage)
  show "predictive_score cv \<noteq> Inl opls_only"
    using o ne by (cases "h_Tpred cv"; cases "h_opt_component cv")
      (simp_all add: predictive_score_def column_not_usage)
  show "R2Xcorr cv \<noteq> Inl opls_only"
    using o ne by (cases "h_r2xcorr cv"; cases "h_opt_component cv")
      (simp_all add: R2Xcorr_def item_not_usage)
  show "R2XYO cv \<noteq> Inl opls_only"
    using o ne by (cases "h_r2xyo cv"; cases "h_opt_component cv")
      (simp_all add: R2XYO_def item_not_usage)
  show "correlation cv \<noteq> Inl opls_only"
    using o ne by (simp add: correlation_def need_not_usage)
  show "covariance cv \<noteq> Inl opls_only"
    using o ne by (simp add: covariance_def need_not_usage)
  show "loadings_cv cv \<noteq> Inl opls_only"
    using o ne by (cases "h_pcv cv"; cases "h_opt_component cv")
      (simp_all add: loadings_cv_def)
qed (simp_all add: prop_defs)

theorem opls_only_properties_witness:
  "R2Xcorr (toy_cv ''pls'' 2) = Inl opls_only \<and>
   orthogonal_score (toy_cv ''pls'' 2) = Inl opls_only \<and>
   loadings_cv (toy_cv ''pls'' 2) = Inl opls_only \<and>
   R2Xcorr (toy_cv ''opls'' 2) \<noteq> Inl opls_only \<and>
   orthogonal_score (toy_cv ''opls'' 2) \<noteq> Inl opls_only"
proof -
  have p: "estimator_id (toy_cv ''pls'' 2) \<noteq> ''opls''"
    and o: "estimator_id (toy_cv ''opls'' 2) = ''opls''"
    by (simp_all add: toy_defs)
  from opls_only_properties[of "toy_cv ''pls'' 2"] opls_only_properties[of "toy_cv ''opls'' 2"] p o
  show ?thesis by blast
qed

subsection \<open>Stepping through the error monad\<close>

lemma bindE_InrE:
  assumes "bindE m f = Inr y"
  obtains x where "m = Inr x" and "f x = Inr y"
  using assms by (cases m) (simp_all add: bindE_def)

lemma foldE_invariant:
  assumes "foldE f xs s = Inr s'" and "\<And>s x s'. f s x = Inr s' \<Longrightarrow> R s s'"
    and "\<And>s. R s s" and "\<And>a b c. R a b \<Longrightarrow> R b c \<Longrightarrow> R a c"
  shows "R s s'"
  using assms(1)
proof (induction xs arbitrary: s)
  case Nil
  then show ?case using assms(3) by simp
next
  case (Cons x xs)
  from Cons.prems obtain s1 where "f s x = Inr s1" "foldE f xs s1 = Inr s'"
    by (auto elim: bindE_InrE)
  then show ?case using assms(2,4) Cons.IH by blast
qed

subsection \<open>What the summaries and the refit change\<close>

lemma summary_fit_frame:
  assumes "summary_fit ext cv x y = Inr cv'"
  shows "same_cv cv cv' \<and> estimator cv' = estimator cv \<and> scaler cv' = scaler cv"
  using assms unfolding summary_fit_def Let_def
  apply (elim bindE_InrE)
  apply (simp only: split: if_splits prod.splits)
   apply (elim bindE_InrE conjE; clarsimp simp add: same_cv_def)
  apply (elim bindE_InrE conjE; clarsimp simp add: same_cv_def)
  done

lemma create_optimal_model_result:
  assumes "create_optimal_model ext cv x y = Inr cv'"
  shows "same_cv cv cv' \<and>
         (\<exists>j e0. h_opt_component cv = Some j \<and> estimator cv = Some e0 \<and>
           scaler cv' = fst (sc_fit_m ext (fst (sc_fit_v ext (scaler cv) y)) x) \<and>
           estimator cv' = Some (est_fit ext e0
              (snd (sc_fit_m ext (fst (sc_fit_v ext (scaler cv) y)) x))
              (snd (sc_fit_v ext (scaler cv) y)) (j + 1)))"
  using assms unfolding create_optimal_model_def Let_def
  apply (simp only: split_beta)
  apply (elim bindE_InrE)
  apply (drule summary_fit_frame)
  apply (cases "h_opt_component cv"; cases "estimator cv"; clarsimp simp add: same_cv_def)
  done

lemma summary_cv_result:
  assumes "summary_cv cv = Inr cv'"
  shows "estimator_id cv' = estimator_id cv \<and> estimator cv' = estimator cv \<and>
         scaler cv' = scaler cv \<and> kfold cv' = kfold cv \<and>
         h_ypred cv' = h_ypred cv \<and> h_pressy cv' = h_pressy cv \<and>
         h_Tortho cv' = h_Tortho cv \<and> h_Tpred cv' = h_Tpred cv \<and>
         h_ssy cv' = h_ssy cv \<and> y_attr cv' = y_attr cv \<and> h_n cv' = h_n cv \<and>
         (\<exists>yp y nmc j pr s. h_ypred cv = Some yp \<and> y_attr cv = Some y \<and>
           count_mis (pred_class yp) y = Inr nmc \<and> argmin nmc = Inr j \<and>
           h_pressy cv = Some pr \<and> h_ssy cv = Some s \<and>
           h_opt_component cv' = Some j \<and> h_mis_classifications cv' = Some nmc \<and>
           h_q2 cv' = Some (map (\<lambda>c. 1 - sum_list (map (\<lambda>r. r ! c) pr) / s) [0..<ncols pr]))"
  using assms unfolding summary_cv_def Let_def
  apply (elim bindE_InrE)
  apply (simp only: split: if_splits)
   apply (elim bindE_InrE conjE; cases "h_ypred cv"; cases "y_attr cv"; cases "h_pressy cv"; cases "h_ssy cv"; clarsimp)
  apply (cases "h_ypred cv"; cases "y_attr cv"; cases "h_pressy cv"; cases "h_ssy cv"; clarsimp)
  done

lemma save_metrics_fields:
  "estimator_id (save_metrics cv st x y) = estimator_id cv"
  "kfold (save_metrics cv st x y) = kfold cv"
  "scaler (save_metrics cv st x y) = st_scaler st"
  "estimator (save_metrics cv st x y) = st_estimator st"
  "h_ypred (save_metrics cv st x y) = Some (first_cols (npc0 st) (values_of (ypred st)))"
  "h_pressy (save_metrics cv st x y) = Some (first_cols (npc0 st) (values_of (pressy st)))"
  "h_ssy (save_metrics cv st x y) = Some (sum_list (ssy st))"
  "y_attr (save_metrics cv st x y) = Some y"
  "h_n (save_metrics cv st x y) = Some (length x)"
  by (simp_all add: save_metrics_def Let_def)

lemma save_metrics_opls:
  assumes "estimator_id cv = ''opls''"
  shows "h_Tortho (save_metrics cv st x y) = Some (first_cols (npc0 st) (values_of (tortho st)))"
    "h_Tpred (save_metrics cv st x y) = Some (first_cols (npc0 st) (values_of (tpred st)))"
    "h_ssx (save_metrics cv st x y) = Some (ssx st)"
    "h_pcv (save_metrics cv st x y) = Some (pcv st)"
  using assms by (simp_all add: save_metrics_def Let_def)

lemma fit_stages:
  assumes "fit ext g cv x y = Inr cv'"
  obtains st cv3 where "cv_loop ext g cv x y = Inr st"
    and "summary_cv (save_metrics cv st x y) = Inr cv3"
    and "create_optimal_model ext cv3 x y = Inr cv'"
  using assms unfolding fit_def by (elim bindE_InrE) blast

subsection \<open>The shapes of the accumulators\<close>

lemma put_cell_shape: "map length (put_cell idx c v a r) = map length a"
  by (cases "r < length a")
     (simp_all add: put_cell_def map_update list_update_same_conv list_update_beyond)

lemma fold_put_cell_shape:
  "map length (fold (\<lambda>r a'. put_cell idx c (f r) a' r) rs a) = map length a"
  by (induction rs arbitrary: a) (simp_all add: put_cell_shape)

lemma fold_put_cell_zip_shape:
  "map length (fold (\<lambda>(r, x) a'. put_cell idx c x a' r) rvs a) = map length a"
  by (induction rvs arbitrary: a) (auto simp add: put_cell_shape)

lemma assign_col_shape: "assign_col idx c v a = Inr a' \<Longrightarrow> map length a' = map length a"
  by (auto simp add: assign_col_def fold_put_cell_shape fold_put_cell_zip_shape split: if_splits)

lemma assign_scalar_shape: "assign_scalar idx c x a = Inr a' \<Longrightarrow> map length a' = map length a"
  by (auto simp add: assign_scalar_def fold_put_cell_shape split: if_splits)

lemma store_pred_shape:
  assumes "store_pred ti k yp yte st = Inr st'"
  shows "shapes st' = shapes st \<and> npc0 st' = npc0 st \<and> st_scaler st' = st_scaler st \<and>
         st_estimator st' = st_estimator st \<and> ssy st' = ssy st"
  using assms unfolding store_pred_def
  by (elim bindE_InrE) (auto simp add: shapes_def dest!: assign_col_shape)

lemma store_scores_shape:
  assumes "store_scores ti k xte tcorr tp st = Inr st'"
  shows "shapes st' = shapes st \<and> npc0 st' = npc0 st \<and> st_scaler st' = st_scaler st \<and>
         st_estimator st' = st_estimator st \<and> ssy st' = ssy st"
  using assms unfolding store_scores_def
  apply (elim bindE_InrE)
  apply (simp only: split: if_splits)
   apply (elim bindE_InrE; auto simp add: shapes_def dest!: assign_col_shape assign_scalar_shape)
  apply (elim bindE_InrE; auto simp add: shapes_def dest!: assign_col_shape assign_scalar_shape)
  done

lemma opls_sums_frame:
  assumes "opls_sums ext e k xtr xc tc tot st = Inr st'"
  shows "shapes st' = shapes st \<and> npc0 st' = npc0 st \<and> st_scaler st' = st_scaler st \<and>
         st_estimator st' = st_estimator st \<and> ssy st' = ssy st \<and>
         ypred st' = ypred st \<and> pressy st' = pressy st \<and> tortho st' = tortho st \<and>
         tpred st' = tpred st"
  using assms unfolding opls_sums_def Let_def
  by (elim bindE_InrE) (auto simp add: shapes_def)

lemma fit_component_shape:
  assumes "fit_component ext est_id e ti xtr xte yte tot st k = Inr st'"
  shows "shapes st' = shapes st \<and> npc0 st' = npc0 st \<and> st_scaler st' = st_scaler st \<and>
         st_estimator st' = st_estimator st \<and> ssy st' = ssy st"
  using assms unfolding fit_component_def Let_def
  apply (simp only: split_beta split: if_splits)
   apply (elim bindE_InrE)
   apply (drule store_scores_shape, drule opls_sums_frame, drule store_pred_shape, simp)
  apply (drule store_pred_shape, simp)
  done

lemma components_shape:
  assumes "foldE (fit_component ext est_id e ti xtr xte yte tot) ks st = Inr st'"
  shows "shapes st' = shapes st \<and> npc0 st' = npc0 st \<and> st_scaler st' = st_scaler st \<and>
         st_estimator st' = st_estimator st \<and> ssy st' = ssy st"
  by (rule foldE_invariant[OF assms, where R = "\<lambda>a b. shapes b = shapes a \<and> npc0 b = npc0 a \<and>
       st_scaler b = st_scaler a \<and> st_estimator b = st_estimator a \<and> ssy b = ssy a"])
     (auto dest!: fit_component_shape)

lemma fit_fold_shape:
  assumes "fit_fold ext est_id x y p st fd = Inr st'"
  shows "shapes st' = shapes st \<and> npc0 st' \<le> npc0 st \<and> st_estimator st' \<noteq> None"
  using assms unfolding fit_fold_def Let_def
  apply (simp only: split_beta)
  apply (elim bindE_InrE)
  apply (cases "st_estimator st"; simp)
  apply (elim bindE_InrE)
  apply (drule components_shape)
  apply (auto simp add: shapes_def)
  done

lemma folds_shape:
  assumes "foldE (fit_fold ext est_id x y p) fds st = Inr st'"
  shows "shapes st' = shapes st \<and> npc0 st' \<le> npc0 st"
  by (rule foldE_invariant[OF assms, where R = "\<lambda>a b. shapes b = shapes a \<and> npc0 b \<le> npc0 a"])
     (auto dest!: fit_fold_shape)

lemma np_empty_shape: "map length (np_empty g n m) = replicate n m"
  by (simp add: np_empty_def list_eq_iff_nth_eq)

lemma cv_loop_shape:
  assumes "cv_loop ext g cv x y = Inr st"
  shows "shapes st = replicate 4 (replicate (length x) (min (length x) (ncols x))) \<and>
         npc0 st \<le> min (length x) (ncols x)"
  using assms unfolding cv_loop_def Let_def
  apply (elim bindE_InrE)
  apply (drule folds_shape)
  apply (simp add: shapes_def np_empty_shape numeral_eq_Suc)
  done

text \<open>The truncated arrays that \<open>fit\<close> stores: \<open>n\<close> rows of \<open>npc0\<close> entries.\<close>

lemma first_cols_values_shape:
  assumes "map length a = replicate n m" and "c \<le> m"
  shows "map length (first_cols c (values_of a)) = replicate n c"
proof -
  have "map length (first_cols c (values_of a)) = map (\<lambda>l. min l c) (map length a)"
    by (simp add: first_cols_def values_of_def comp_def)
  also have "\<dots> = replicate n c" using assms by (simp add: min_absorb2)
  finally show ?thesis .
qed

lemma cv_loop_stored_shapes:
  assumes "cv_loop ext g cv x y = Inr st"
  shows "map length (first_cols (npc0 st) (values_of (ypred st))) = replicate (length x) (npc0 st)"
    "map length (first_cols (npc0 st) (values_of (pressy st))) = replicate (length x) (npc0 st)"
    "map length (first_cols (npc0 st) (values_of (tortho st))) = replicate (length x) (npc0 st)"
    "map length (first_cols (npc0 st) (values_of (tpred st))) = replicate (length x) (npc0 st)"
  using cv_loop_shape[OF assms]
  by (auto simp add: shapes_def numeral_eq_Suc intro!: first_cols_values_shape)

lemma ncols_replicate:
  "map length a = replicate n m \<Longrightarrow> ncols a = (if n = 0 then 0 else m)"
  by (cases a; cases n) (auto simp add: ncols_def)

subsection \<open>\<open>np.argmin\<close> and the misclassification counts\<close>

lemma argmin_from_spec:
  assumes "best < length ps" and "least = ps ! best"
    and "\<forall>i<length ps. ps ! best \<le> ps ! i" and "\<forall>i<best. ps ! best < ps ! i"
  shows "argmin_from xs (length ps) best least < length (ps @ xs) \<and>
         (\<forall>i<length (ps @ xs). (ps @ xs) ! argmin_from xs (length ps) best least \<le> (ps @ xs) ! i) \<and>
         (\<forall>i<argmin_from xs (length ps) best least.
             (ps @ xs) ! argmin_from xs (length ps) best least < (ps @ xs) ! i)"
  using assms
proof (induction xs arbitrary: ps best least)
  case Nil
  then show ?case by simp
next
  case (Cons x xs)
  let ?ps = "ps @ [x]"
  show ?case
  proof (cases "x < least")
    case True
    have a: "length ps < length ?ps" "x = ?ps ! length ps" by simp_all
    have b: "\<forall>i<length ?ps. ?ps ! length ps \<le> ?ps ! i"
      using True Cons.prems by (auto simp add: nth_append less_Suc_eq dest: order_less_le_trans)
    have c: "\<forall>i<length ps. ?ps ! length ps < ?ps ! i"
      using True Cons.prems by (auto simp add: nth_append dest: order_less_le_trans)
    from Cons.IH[of "length ps" ?ps x, OF a b c] True show ?thesis by simp
  next
    case False
    have a: "best < length ?ps" "least = ?ps ! best"
      using Cons.prems by (simp_all add: nth_append)
    have b: "\<forall>i<length ?ps. ?ps ! best \<le> ?ps ! i"
      using False Cons.prems by (auto simp add: nth_append less_Suc_eq)
    have c: "\<forall>i<best. ?ps ! best < ?ps ! i"
      using Cons.prems by (auto simp add: nth_append)
    from Cons.IH[of best ?ps least, OF a b c] False show ?thesis by simp
  qed
qed

lemma argmin_spec:
  assumes "argmin xs = Inr j"
  shows "j < length xs \<and> (\<forall>i<length xs. xs ! j \<le> xs ! i) \<and> (\<forall>i<j. xs ! j < xs ! i)"
proof (cases xs)
  case Nil
  with assms show ?thesis by (simp add: argmin_def)
next
  case (Cons x xs')
  with assms have j: "j = argmin_from xs' (length [x]) 0 x" by (simp add: argmin_def)
  from argmin_from_spec[of 0 "[x]" x xs'] show ?thesis by (simp add: j Cons)
qed

lemma count_mis_length: "count_mis pc y = Inr nmc \<Longrightarrow> length nmc = ncols pc"
  by (auto simp add: count_mis_def split: if_splits)

lemma count_mis_nth:
  assumes "count_mis pc y = Inr nmc" and "length y = length pc" and "j < ncols pc"
  shows "nmc ! j = card {r. r < length pc \<and> pc ! r ! j \<noteq> y ! r}"
proof -
  have "nmc ! j = length (filter (\<lambda>(r, t). r ! j - t \<noteq> 0) (zip pc y))"
    using assms by (auto simp add: count_mis_def)
  also have "\<dots> = card {i. i < length (zip pc y) \<and> (\<lambda>(r, t). r ! j - t \<noteq> 0) (zip pc y ! i)}"
    by (rule length_filter_conv_card)
  also have "{i. i < length (zip pc y) \<and> (\<lambda>(r, t). r ! j - t \<noteq> 0) (zip pc y ! i)} =
             {r. r < length pc \<and> pc ! r ! j \<noteq> y ! r}"
    using assms(2) by auto
  finally show ?thesis .
qed

subsection \<open>The object after \<open>fit\<close>\<close>

lemma ncols_pred_class: "ncols (pred_class yp) = ncols yp"
  by (cases yp) (simp_all add: ncols_def pred_class_def)

lemma column_in_range:
  assumes "map length t = replicate n c" and "j < c"
  shows "column t j = Inr (map (\<lambda>r. r ! j) t)"
proof -
  have "\<forall>r\<in>set t. length r = c"
    using assms(1) by (metis (no_types, lifting) image_eqI in_set_replicate list.set_map)
  with assms(2) show ?thesis by (auto simp add: column_def list_ex_iff)
qed

lemma fit_result:
  assumes "fit ext g cv x y = Inr cv'"
  obtains st j nmc e0 where
    "cv_loop ext g cv x y = Inr st"
    "estimator_id cv' = estimator_id cv"
    "h_opt_component cv' = Some j" "j < npc0 st" "0 < length x"
    "h_mis_classifications cv' = Some nmc" "length nmc = npc0 st" "argmin nmc = Inr j"
    "count_mis (pred_class (first_cols (npc0 st) (values_of (ypred st)))) y = Inr nmc"
    "h_ypred cv' = Some (first_cols (npc0 st) (values_of (ypred st)))"
    "h_pressy cv' = Some (first_cols (npc0 st) (values_of (pressy st)))"
    "h_q2 cv' = Some (map (\<lambda>c. 1 - sum_list (map (\<lambda>r. r ! c)
         (first_cols (npc0 st) (values_of (pressy st)))) / sum_list (ssy st)) [0..<npc0 st])"
    "estimator_id cv = ''opls'' \<Longrightarrow>
       h_Tpred cv' = Some (first_cols (npc0 st) (values_of (tpred st))) \<and>
       h_Tortho cv' = Some (first_cols (npc0 st) (values_of (tortho st)))"
    "st_estimator st = Some e0"
    "scaler cv' = fst (sc_fit_m ext (fst (sc_fit_v ext (st_scaler st) y)) x)"
    "estimator cv' = Some (est_fit ext e0
        (snd (sc_fit_m ext (fst (sc_fit_v ext (st_scaler st) y)) x))
        (snd (sc_fit_v ext (st_scaler st) y)) (j + 1))"
proof -
  from assms obtain st cv3 where
    loop: "cv_loop ext g cv x y = Inr st"
    and sm: "summary_cv (save_metrics cv st x y) = Inr cv3"
    and co: "create_optimal_model ext cv3 x y = Inr cv'"
    by (rule fit_stages)
  let ?cv2 = "save_metrics cv st x y"
  let ?yp = "first_cols (npc0 st) (values_of (ypred st))"
  let ?pr = "first_cols (npc0 st) (values_of (pressy st))"
  note sh = cv_loop_stored_shapes[OF loop]
  from summary_cv_result[OF sm] obtain nmc j where
    fr: "estimator_id cv3 = estimator_id ?cv2" "estimator cv3 = estimator ?cv2"
      "scaler cv3 = scaler ?cv2" "h_ypred cv3 = h_ypred ?cv2" "h_pressy cv3 = h_pressy ?cv2"
      "h_Tortho cv3 = h_Tortho ?cv2" "h_Tpred cv3 = h_Tpred ?cv2"
    and cm: "count_mis (pred_class ?yp) y = Inr nmc" and am: "argmin nmc = Inr j"
    and o3: "h_opt_component cv3 = Some j" "h_mis_classifications cv3 = Some nmc"
    and q3: "h_q2 cv3 =
       Some (map (\<lambda>c. 1 - sum_list (map (\<lambda>r. r ! c) ?pr) / sum_list (ssy st)) [0..<ncols ?pr])"
    by (auto simp add: save_metrics_fields)
  from create_optimal_model_result[OF co] obtain e0 where
    same: "same_cv cv3 cv'" and e0: "estimator cv3 = Some e0"
    and sc: "scaler cv' = fst (sc_fit_m ext (fst (sc_fit_v ext (scaler cv3) y)) x)"
    and es: "estimator cv' = Some (est_fit ext e0
        (snd (sc_fit_m ext (fst (sc_fit_v ext (scaler cv3) y)) x))
        (snd (sc_fit_v ext (scaler cv3) y)) (j + 1))"
    using o3(1) by auto
  have len: "length nmc = ncols ?yp"
    using count_mis_length[OF cm] by (simp add: ncols_pred_class)
  have jl: "j < length nmc" using argmin_spec[OF am] by simp
  have nc: "ncols ?yp = (if length x = 0 then 0 else npc0 st)"
    by (rule ncols_replicate[OF sh(1)])
  from jl len nc have pos: "0 < length x" by (cases "length x = 0") simp_all
  with nc have nc': "ncols ?yp = npc0 st" by simp
  have ncp: "ncols ?pr = npc0 st"
    using ncols_replicate[OF sh(2)] pos by simp
  show ?thesis
  proof (rule that[of st j nmc e0])
    show "cv_loop ext g cv x y = Inr st" by (rule loop)
    show "estimator_id cv' = estimator_id cv"
      using same fr(1) by (simp add: same_cv_def save_metrics_fields)
    show "h_opt_component cv' = Some j" using same o3 by (simp add: same_cv_def)
    show "j < npc0 st" using jl len nc' by simp
    show "0 < length x" by (rule pos)
    show "h_mis_classifications cv' = Some nmc" using same o3 by (simp add: same_cv_def)
    show "length nmc = npc0 st" using len nc' by simp
    show "argmin nmc = Inr j" by (rule am)
    show "count_mis (pred_class ?yp) y = Inr nmc" by (rule cm)
    show "h_ypred cv' = Some ?yp"
      using same fr by (simp add: same_cv_def save_metrics_fields)
    show "h_pressy cv' = Some ?pr"
      using same fr by (simp add: same_cv_def save_metrics_fields)
    show "h_q2 cv' = Some (map (\<lambda>c. 1 - sum_list (map (\<lambda>r. r ! c) ?pr) / sum_list (ssy st))
        [0..<npc0 st])"
      using same q3 ncp by (simp add: same_cv_def)
    show "h_Tpred cv' = Some (first_cols (npc0 st) (values_of (tpred st))) \<and>
       h_Tortho cv' = Some (first_cols (npc0 st) (values_of (tortho st)))"
      if "estimator_id cv = ''opls''"
      using same fr that by (simp add: same_cv_def save_metrics_opls)
    show "st_estimator st = Some e0" using e0 fr(2) by (simp add: save_metrics_fields)
    show "scaler cv' = fst (sc_fit_m ext (fst (sc_fit_v ext (st_scaler st) y)) x)"
      using sc fr(3) by (simp add: save_metrics_fields)
    show "estimator cv' = Some (est_fit ext e0
        (snd (sc_fit_m ext (fst (sc_fit_v ext (st_scaler st) y)) x))
        (snd (sc_fit_v ext (st_scaler st) y)) (j + 1))"
      using es fr(3) by (simp add: save_metrics_fields)
  qed
qed

subsection \<open>Runs of the concrete instance\<close>

lemma split_2_2: "split 2 (Suc (Suc 0)) = Inr [([1], [0]), ([0], [1])]"
  by (simp add: split_def split_fold_def slice_assign_def mask_select_def Let_def upt_small
      numeral_2_eq_2)

lemma toy_fit_opls:
  "\<exists>c. fit toy (\<lambda>a r c. 0) (toy_cv ''opls'' 2) [[3], [-1]] [1, 0] = Inr c \<and>
     h_opt_component c = Some 0 \<and> h_q2 c = Some [- 4]"
  by (simp add: fit_defs np_defs loop_defs toy_defs Let_def upt_small numeral_eq_Suc)

lemma toy_fit_pls:
  "\<exists>c. fit toy (\<lambda>a r c. 0) (toy_cv ''pls'' 2) [[3], [-1]] [1, 0] = Inr c \<and>
     h_opt_component c = Some 0 \<and> h_q2 c = Some [- 4]"
  by (simp add: fit_defs np_defs loop_defs toy_defs Let_def upt_small numeral_eq_Suc)

subsection \<open>Claims about the fitted object\<close>

text \<open>
  C9. After \<open>fit\<close> has completed with the estimator \<open>"pls"\<close>, \<open>scores\<close> is the attribute
  \<open>scores_x\<close> of the stored estimator; after \<open>fit\<close> with \<open>"opls"\<close> it is the value of the
  property \<open>predictive_score\<close>, the column of the cross-validated predictive scores at the
  optimal component index.
\<close>

theorem scores_after_fit:
  assumes "fit ext g cv x y = Inr cv'"
  shows "(estimator_id cv = ''pls'' \<longrightarrow>
           (\<exists>e. estimator cv' = Some e \<and> scores ext cv' = Inr (Inl (est_scores_x ext e)))) \<and>
         (estimator_id cv = ''opls'' \<longrightarrow>
           (\<exists>v t j. predictive_score cv' = Inr v \<and> scores ext cv' = Inr (Inr v) \<and>
              h_Tpred cv' = Some t \<and> h_opt_component cv' = Some j \<and> v = map (\<lambda>r. r ! j) t))"
proof -
  from assms obtain st j nmc e0 where
    loop: "cv_loop ext g cv x y = Inr st"
    and id: "estimator_id cv' = estimator_id cv"
    and j: "h_opt_component cv' = Some j" "j < npc0 st"
    and tp: "estimator_id cv = ''opls'' \<Longrightarrow>
       h_Tpred cv' = Some (first_cols (npc0 st) (values_of (tpred st))) \<and>
       h_Tortho cv' = Some (first_cols (npc0 st) (values_of (tortho st)))"
    and es: "estimator cv' = Some (est_fit ext e0
        (snd (sc_fit_m ext (fst (sc_fit_v ext (st_scaler st) y)) x))
        (snd (sc_fit_v ext (st_scaler st) y)) (j + 1))"
    by (rule fit_result) blast
  show ?thesis
  proof (intro conjI impI)
    assume "estimator_id cv = ''pls''"
    with id es show "\<exists>e. estimator cv' = Some e \<and> scores ext cv' = Inr (Inl (est_scores_x ext e))"
      by (simp add: scores_def)
  next
    assume o: "estimator_id cv = ''opls''"
    let ?t = "first_cols (npc0 st) (values_of (tpred st))"
    have c: "column ?t j = Inr (map (\<lambda>r. r ! j) ?t)"
      by (rule column_in_range[OF cv_loop_stored_shapes(4)[OF loop] j(2)])
    have p: "predictive_score cv' = Inr (map (\<lambda>r. r ! j) ?t)"
      using o id j(1) tp c by (simp add: predictive_score_def)
    then have "scores ext cv' = Inr (Inr (map (\<lambda>r. r ! j) ?t))"
      using o id by (simp add: scores_def)
    with p j(1) tp[OF o]
    show "\<exists>v t j. predictive_score cv' = Inr v \<and> scores ext cv' = Inr (Inr v) \<and>
              h_Tpred cv' = Some t \<and> h_opt_component cv' = Some j \<and> v = map (\<lambda>r. r ! j) t"
      by blast
  qed
qed

theorem scores_after_fit_witness:
  "(\<exists>c e. fit toy (\<lambda>a r c. 0) (toy_cv ''pls'' 2) [[3], [-1]] [1, 0] = Inr c \<and>
       estimator c = Some e \<and> scores toy c = Inr (Inl (est_scores_x toy e))) \<and>
   (\<exists>c v. fit toy (\<lambda>a r c. 0) (toy_cv ''opls'' 2) [[3], [-1]] [1, 0] = Inr c \<and>
       predictive_score c = Inr v \<and> scores toy c = Inr (Inr v))"
proof -
  obtain c1 where c1: "fit toy (\<lambda>a r c. 0) (toy_cv ''pls'' 2) [[3], [-1]] [1, 0] = Inr c1"
    using toy_fit_pls by blast
  obtain c2 where c2: "fit toy (\<lambda>a r c. 0) (toy_cv ''opls'' 2) [[3], [-1]] [1, 0] = Inr c2"
    using toy_fit_opls by blast
  have i: "estimator_id (toy_cv ''pls'' 2) = ''pls''" "estimator_id (toy_cv ''opls'' 2) = ''opls''"
    by (simp_all add: toy_defs)
  from scores_after_fit[OF c1] scores_after_fit[OF c2] i c1 c2 show ?thesis by blast
qed

text \<open>
  C8. On a fitted object, \<open>predict\<close> scales \<open>X\<close> with the stored scaler, applies the
  orthogonal correction at \<open>opt_component + 1\<close> components exactly when the estimator is
  OPLS, and predicts with the stored estimator at \<open>opt_component + 1\<close> components. The
  stored scaler is the one returned by the last \<open>Scaler.fit\<close> of the refit, on the whole
  \<open>x\<close>, and the stored estimator the one fitted on the whole scaled data.
\<close>

theorem predict_uses_refit:
  assumes "fit ext g cv x y = Inr cv'"
  shows "\<exists>st e0 j. cv_loop ext g cv x y = Inr st \<and> st_estimator st = Some e0 \<and>
           h_opt_component cv' = Some j \<and>
           scaler cv' = fst (sc_fit_m ext (fst (sc_fit_v ext (st_scaler st) y)) x) \<and>
           estimator cv' = Some (est_fit ext e0
              (snd (sc_fit_m ext (fst (sc_fit_v ext (st_scaler st) y)) x))
              (snd (sc_fit_v ext (st_scaler st) y)) (j + 1)) \<and>
           predict ext cv' X =
             Inr (fst (est_predict ext (the (estimator cv'))
                    (if estimator_id cv = ''opls''
                     then fst (est_correct ext (the (estimator cv'))
                                 (sc_scale_m ext (scaler cv') X) (j + 1))
                     else sc_scale_m ext (scaler cv') X)
                    (j + 1)))"
proof -
  from assms obtain st j nmc e0 where
    loop: "cv_loop ext g cv x y = Inr st"
    and id: "estimator_id cv' = estimator_id cv"
    and j: "h_opt_component cv' = Some j"
    and e0: "st_estimator st = Some e0"
    and sc: "scaler cv' = fst (sc_fit_m ext (fst (sc_fit_v ext (st_scaler st) y)) x)"
    and es: "estimator cv' = Some (est_fit ext e0
        (snd (sc_fit_m ext (fst (sc_fit_v ext (st_scaler st) y)) x))
        (snd (sc_fit_v ext (st_scaler st) y)) (j + 1))"
    by (rule fit_result) blast
  have "predict ext cv' X =
             Inr (fst (est_predict ext (the (estimator cv'))
                    (if estimator_id cv = ''opls''
                     then fst (est_correct ext (the (estimator cv'))
                                 (sc_scale_m ext (scaler cv') X) (j + 1))
                     else sc_scale_m ext (scaler cv') X)
                    (j + 1)))"
    using id j es by (simp add: predict_def Let_def)
  with loop e0 j sc es show ?thesis by blast
qed

theorem predict_uses_refit_witness:
  "\<exists>c. fit toy (\<lambda>a r c. 0) (toy_cv ''opls'' 2) [[3], [-1]] [1, 0] = Inr c \<and>
     estimator c = Some (2, 1, 1) \<and> predict toy c [[5], [6], [7]] = Inr [5, 6, 7]"
proof -
  obtain c where c: "fit toy (\<lambda>a r c. 0) (toy_cv ''opls'' 2) [[3], [-1]] [1, 0] = Inr c"
    and o: "h_opt_component c = Some 0"
    using toy_fit_opls by blast
  from predict_uses_refit[OF c, of "[[5], [6], [7]]"] o
  have "estimator c = Some (2, 1, 1) \<and> predict toy c [[5], [6], [7]] = Inr [5, 6, 7]"
    by (auto simp add: toy_defs ncols_def)
  with c show ?thesis by blast
qed

subsection \<open>The sums of squares of the response\<close>

lemma take_idx_Inr: "take_idx a idx = Inr v \<Longrightarrow> v = map (\<lambda>i. a ! i) idx"
  by (simp add: take_idx_def split: if_splits)

lemma fit_fold_ssy:
  assumes "fit_fold ext est_id x y p st fd = Inr st'"
  shows "ssy st' = ssy st @ [fold_ssy ext x y (st_scaler st) fd] \<and>
         st_scaler st' = fold_scaler ext x y (st_scaler st) fd"
  using assms unfolding fit_fold_def Let_def
  apply (simp only: split_beta)
  apply (elim bindE_InrE)
  apply (cases "st_estimator st"; simp)
  apply (elim bindE_InrE)
  apply (drule components_shape)
  apply (drule take_idx_Inr)+
  apply (auto simp add: fold_ssy_def fold_scaler_def)
  done

lemma folds_ssy:
  assumes "foldE (fit_fold ext est_id x y p) fds st = Inr st'"
  shows "ssy st' = ssy st @ ssy_of_folds ext x y (st_scaler st) fds"
  using assms
proof (induction fds arbitrary: st)
  case Nil
  then show ?case by simp
next
  case (Cons fd fds)
  from Cons.prems obtain s1 where s1: "fit_fold ext est_id x y p st fd = Inr s1"
    and r: "foldE (fit_fold ext est_id x y p) fds s1 = Inr st'"
    by (auto elim: bindE_InrE)
  from Cons.IH[OF r] fit_fold_ssy[OF s1] show ?case by simp
qed

lemma cv_loop_ssy:
  assumes "cv_loop ext g cv x y = Inr st"
  shows "\<exists>folds. split (kfold cv) (length x) = Inr folds \<and>
           ssy st = ssy_of_folds ext x y (scaler cv) folds"
  using assms unfolding cv_loop_def Let_def
  apply (elim bindE_InrE)
  apply (drule folds_ssy)
  apply simp
  done

lemma pred_class_nth:
  "r < length yp \<Longrightarrow> c < length (yp ! r) \<Longrightarrow>
   pred_class yp ! r ! c = (if 0 < yp ! r ! c then 1 else 0)"
  by (simp add: pred_class_def)

lemma nth_of_replicate_lengths:
  "map length a = replicate n m \<Longrightarrow> r < n \<Longrightarrow> length a = n \<and> length (a ! r) = m"
  by (metis length_map length_replicate nth_map nth_replicate)

subsection \<open>Claims about the summary of the cross validation\<close>

text \<open>
  C1. After \<open>fit\<close>, a prediction counts as class 1 exactly when its entry of \<open>ypred\<close> is
  positive; \<open>mis_classifications[c]\<close> is the number of samples whose class in column \<open>c\<close>
  differs from \<open>y\<close>; \<open>optimal_component_num - 1\<close> is the first position of the least
  count; and \<open>optimal_component_num\<close> lies between 1 and the final \<open>npc0\<close>, the number of
  columns that \<open>fit\<close> keeps.
\<close>

theorem optimal_component_by_misclassification:
  assumes "fit ext g cv x y = Inr cv'" and "length y = length x"
  shows "\<exists>st yp nmc j. cv_loop ext g cv x y = Inr st \<and> h_ypred cv' = Some yp \<and>
           mis_classifications cv' = Inr (Some nmc) \<and>
           optimal_component_num cv' = Inr (j + 1) \<and>
           length nmc = npc0 st \<and>
           (\<forall>c<npc0 st. nmc ! c =
              card {r. r < length x \<and> (if 0 < yp ! r ! c then 1 else 0) \<noteq> y ! r}) \<and>
           (\<forall>c<npc0 st. nmc ! j \<le> nmc ! c) \<and> (\<forall>c<j. nmc ! j < nmc ! c) \<and>
           1 \<le> j + 1 \<and> j + 1 \<le> npc0 st \<and> npc0 st \<le> min (length x) (ncols x)"
proof -
  from assms(1) obtain st j nmc e0 where
    loop: "cv_loop ext g cv x y = Inr st"
    and j: "h_opt_component cv' = Some j" "j < npc0 st"
    and nmc: "h_mis_classifications cv' = Some nmc" "length nmc = npc0 st"
    and am: "argmin nmc = Inr j"
    and cm: "count_mis (pred_class (first_cols (npc0 st) (values_of (ypred st)))) y = Inr nmc"
    and yp: "h_ypred cv' = Some (first_cols (npc0 st) (values_of (ypred st)))"
    by (rule fit_result) blast
  let ?yp = "first_cols (npc0 st) (values_of (ypred st))"
  note sh = cv_loop_stored_shapes(1)[OF loop]
  have ly: "length ?yp = length x" using sh by (metis length_map length_replicate)
  have lp: "length (pred_class ?yp) = length x" using ly by (simp add: pred_class_def)
  have counts: "\<forall>c<npc0 st. nmc ! c =
      card {r. r < length x \<and> (if 0 < ?yp ! r ! c then 1 else 0) \<noteq> y ! r}"
  proof (intro allI impI)
    fix c assume c: "c < npc0 st"
    have "c < ncols (pred_class ?yp)"
      using count_mis_length[OF cm] nmc(2) c by simp
    from count_mis_nth[OF cm _ this] assms(2) lp
    have n: "nmc ! c = card {r. r < length x \<and> pred_class ?yp ! r ! c \<noteq> y ! r}" by simp
    have pc: "pred_class ?yp ! r ! c = (if 0 < ?yp ! r ! c then 1 else 0)"
      if "r < length x" for r
      using nth_of_replicate_lengths[OF sh that] c that by (intro pred_class_nth) simp_all
    have "{r. r < length x \<and> pred_class ?yp ! r ! c \<noteq> y ! r} =
          {r. r < length x \<and> (if 0 < ?yp ! r ! c then 1 else 0) \<noteq> y ! r}"
      by (rule Collect_cong) (simp only: pc cong: conj_cong)
    with n show "nmc ! c =
      card {r. r < length x \<and> (if 0 < ?yp ! r ! c then 1 else 0) \<noteq> y ! r}"
      by (simp only:)
  qed
  from argmin_spec[OF am] nmc(2)
  have least: "\<forall>c<npc0 st. nmc ! j \<le> nmc ! c" "\<forall>c<j. nmc ! j < nmc ! c" by simp_all
  have bound: "npc0 st \<le> min (length x) (ncols x)" using cv_loop_shape[OF loop] by simp
  have m: "mis_classifications cv' = Inr (Some nmc)"
    and n: "optimal_component_num cv' = Inr (j + 1)"
    using nmc(1) j(1) by (simp_all add: mis_classifications_def optimal_component_num_def)
  have jb: "1 \<le> j + 1" "j + 1 \<le> npc0 st" using j(2) by simp_all
  from loop yp m n nmc(2) counts least jb bound show ?thesis by blast
qed

theorem optimal_component_by_misclassification_witness:
  "\<exists>c nmc. fit toy (\<lambda>a r c. 0) (toy_cv ''opls'' 2) [[3], [-1]] [1, 0] = Inr c \<and>
     mis_classifications c = Inr (Some nmc) \<and> length nmc = 1 \<and>
     optimal_component_num c = Inr 1"
proof -
  obtain c where c: "fit toy (\<lambda>a r c. 0) (toy_cv ''opls'' 2) [[3], [-1]] [1, 0] = Inr c"
    using toy_fit_opls by blast
  have l: "length [1, 0::real] = length [[3], [-1::real]]" by simp
  obtain st yp nmc j where f: "cv_loop toy (\<lambda>a r c. 0) (toy_cv ''opls'' 2) [[3], [-1]] [1, 0] = Inr st \<and>
           h_ypred c = Some yp \<and>
           mis_classifications c = Inr (Some nmc) \<and>
           optimal_component_num c = Inr (j + 1) \<and>
           length nmc = npc0 st \<and>
           (\<forall>c<npc0 st. nmc ! c =
              card {r. r < length [[3], [-1::real]] \<and>
                (if 0 < yp ! r ! c then 1 else 0) \<noteq> [1, 0::real] ! r}) \<and>
           (\<forall>c<npc0 st. nmc ! j \<le> nmc ! c) \<and> (\<forall>c<j. nmc ! j < nmc ! c) \<and>
           1 \<le> j + 1 \<and> j + 1 \<le> npc0 st \<and>
           npc0 st \<le> min (length [[3], [-1::real]]) (ncols [[3], [-1::real]])"
    using optimal_component_by_misclassification[OF c l] by blast
  then have m: "mis_classifications c = Inr (Some nmc)"
    and n: "optimal_component_num c = Inr (j + 1)"
    and ln: "length nmc = npc0 st" and jb: "j + 1 \<le> npc0 st"
    and b: "npc0 st \<le> min (length [[3], [-1::real]]) (ncols [[3], [-1::real]])"
    by blast+
  from b have "npc0 st \<le> 1" by (simp add: ncols_def)
  with jb have "j = 0" "npc0 st = 1" by simp_all
  with c m n ln show ?thesis by auto
qed


lemma sum_list_map_nth: "sum_list (map f xs) = (\<Sum>r<length xs. f (xs ! r))"
proof -
  have "sum_list (map f xs) = (\<Sum>r = 0..<length (map f xs). map f xs ! r)"
    by (rule sum_list_sum_nth)
  also have "\<dots> = (\<Sum>r<length xs. f (xs ! r))"
    by (simp add: atLeast0LessThan)
  finally show ?thesis .
qed

text \<open>
  C2. After \<open>fit\<close>, entry \<open>c\<close> of the \<open>Q2\<close> curve is
  \<open>1 - sum(pressy[:, c]) / total_ssy\<close> for every kept column \<open>c\<close>, where \<open>total_ssy\<close> adds the
  sums of squares of the scaled test responses of all folds; the property \<open>q2\<close> returns the
  entry at the optimal component index. The value can be negative: on the concrete
  instance it is \<open>- 4\<close>. The statement is for \<open>total_ssy \<noteq> 0\<close>: for a zero \<open>total_ssy\<close>
  numpy's division gives an infinity or NaN, which the real numbers of this model do not
  have.
\<close>

theorem q2_curve:
  assumes "fit ext g cv x y = Inr cv'"
    and "split (kfold cv) (length x) = Inr folds"
    and "sum_list (ssy_of_folds ext x y (scaler cv) folds) \<noteq> 0"
  shows "(\<exists>st q pr j. cv_loop ext g cv x y = Inr st \<and>
            h_ssy cv' = Some (sum_list (ssy_of_folds ext x y (scaler cv) folds)) \<and>
            h_q2 cv' = Some q \<and> h_pressy cv' = Some pr \<and> length q = npc0 st \<and>
            (\<forall>c<npc0 st. q ! c =
               1 - (\<Sum>r<length x. pr ! r ! c) /
                   sum_list (ssy_of_folds ext x y (scaler cv) folds)) \<and>
            h_opt_component cv' = Some j \<and> j < npc0 st \<and> q2 cv' = Inr (q ! j)) \<and>
         (\<exists>c v. fit toy (\<lambda>a r c. 0) (toy_cv ''opls'' 2) [[3], [-1]] [1, 0] = Inr c \<and>
            q2 c = Inr v \<and> v < 0)"
proof
  from assms(1) obtain st j nmc e0 where
    loop: "cv_loop ext g cv x y = Inr st"
    and j: "h_opt_component cv' = Some j" "j < npc0 st"
    and pr: "h_pressy cv' = Some (first_cols (npc0 st) (values_of (pressy st)))"
    and q: "h_q2 cv' = Some (map (\<lambda>c. 1 - sum_list (map (\<lambda>r. r ! c)
         (first_cols (npc0 st) (values_of (pressy st)))) / sum_list (ssy st)) [0..<npc0 st])"
    by (rule fit_result) blast
  let ?pr = "first_cols (npc0 st) (values_of (pressy st))"
  let ?q = "map (\<lambda>c. 1 - sum_list (map (\<lambda>r. r ! c) ?pr) / sum_list (ssy st)) [0..<npc0 st]"
  from cv_loop_ssy[OF loop] assms(2)
  have ss: "ssy st = ssy_of_folds ext x y (scaler cv) folds" by auto
  from assms(1) obtain st' cv3 where
    l': "cv_loop ext g cv x y = Inr st'"
    and sm: "summary_cv (save_metrics cv st' x y) = Inr cv3"
    and co: "create_optimal_model ext cv3 x y = Inr cv'"
    by (rule fit_stages)
  from l' loop have st': "st' = st" by simp
  have "h_ssy cv' = h_ssy cv3"
    using create_optimal_model_result[OF co] by (simp add: same_cv_def)
  also have "\<dots> = Some (sum_list (ssy st))"
    using summary_cv_result[OF sm] by (simp add: save_metrics_fields st')
  finally have hs: "h_ssy cv' = Some (sum_list (ssy_of_folds ext x y (scaler cv) folds))"
    by (simp only: ss)
  have lp: "length ?pr = length x"
    using cv_loop_stored_shapes(2)[OF loop] by (metis length_map length_replicate)
  have lq: "length ?q = npc0 st" by simp
  have curve: "\<forall>c<npc0 st. ?q ! c =
               1 - (\<Sum>r<length x. ?pr ! r ! c) /
                   sum_list (ssy_of_folds ext x y (scaler cv) folds)"
  proof (intro allI impI)
    fix c assume "c < npc0 st"
    then have "?q ! c = 1 - sum_list (map (\<lambda>r. r ! c) ?pr) / sum_list (ssy st)" by simp
    also have "sum_list (map (\<lambda>r. r ! c) ?pr) = (\<Sum>r<length x. ?pr ! r ! c)"
      unfolding sum_list_map_nth lp ..
    finally show "?q ! c = 1 - (\<Sum>r<length x. ?pr ! r ! c) /
                   sum_list (ssy_of_folds ext x y (scaler cv) folds)"
      by (simp only: ss)
  qed
  have q2: "q2 cv' = Inr (?q ! j)"
    using q j by (simp add: q2_def item_def)
  from loop hs q pr lq curve j q2
  show "\<exists>st q pr j. cv_loop ext g cv x y = Inr st \<and>
            h_ssy cv' = Some (sum_list (ssy_of_folds ext x y (scaler cv) folds)) \<and>
            h_q2 cv' = Some q \<and> h_pressy cv' = Some pr \<and> length q = npc0 st \<and>
            (\<forall>c<npc0 st. q ! c =
               1 - (\<Sum>r<length x. pr ! r ! c) /
                   sum_list (ssy_of_folds ext x y (scaler cv) folds)) \<and>
            h_opt_component cv' = Some j \<and> j < npc0 st \<and> q2 cv' = Inr (q ! j)"
    by blast
next
  from toy_fit_opls obtain c where
    c: "fit toy (\<lambda>a r c. 0) (toy_cv ''opls'' 2) [[3], [-1]] [1, 0] = Inr c"
    and o: "h_opt_component c = Some 0" "h_q2 c = Some [- 4]" by blast
  have "q2 c = Inr (- 4)" using o by (simp add: q2_def item_def)
  with c show "\<exists>c v. fit toy (\<lambda>a r c. 0) (toy_cv ''opls'' 2) [[3], [-1]] [1, 0] = Inr c \<and>
            q2 c = Inr v \<and> v < 0"
    by (intro exI[of _ c] exI[of _ "- 4"]) simp
qed

theorem q2_curve_witness:
  "\<exists>c q. fit toy (\<lambda>a r c. 0) (toy_cv ''opls'' 2) [[3], [-1]] [1, 0] = Inr c \<and>
     sum_list (ssy_of_folds toy [[3], [-1]] [1, 0] () [([1], [0]), ([0], [1])]) = 1 \<and>
     h_ssy c = Some 1 \<and>
     h_q2 c = Some q \<and> length q = 1 \<and> q2 c = Inr (q ! 0) \<and> q2 c = Inr (- 4)"
proof -
  let ?x = "[[3], [-1::real]]"
  let ?folds = "[([1], [0]), ([0], [1::nat])]"
  from toy_fit_opls obtain c where
    c: "fit toy (\<lambda>a r c. 0) (toy_cv ''opls'' 2) ?x [1, 0] = Inr c"
    and o: "h_opt_component c = Some 0" "h_q2 c = Some [- 4]" by blast
  have s: "split (kfold (toy_cv ''opls'' 2)) (length ?x) = Inr ?folds"
    by (simp add: toy_defs split_2_2)
  have sc: "scaler (toy_cv ''opls'' 2) = ()" by simp
  have t: "sum_list (ssy_of_folds toy ?x [1, 0] () ?folds) = 1"
    by (simp add: fold_ssy_def fold_scaler_def toy_def sumsq_v_def)
  then have nz: "sum_list (ssy_of_folds toy ?x [1, 0] (scaler (toy_cv ''opls'' 2)) ?folds) \<noteq> 0"
    by simp
  from q2_curve[OF c s nz, THEN conjunct1] obtain q j where
    "h_ssy c = Some (sum_list (ssy_of_folds toy ?x [1, 0] (scaler (toy_cv ''opls'' 2)) ?folds))"
    "h_q2 c = Some q" "h_opt_component c = Some j" "q2 c = Inr (q ! j)"
    by blast
  with c o t show ?thesis by (auto simp add: sc)
qed

subsection \<open>Which cells an assignment writes\<close>

lemma put_cell_lengths:
  "length (put_cell idx c v a r) = length a"
  "length (put_cell idx c v a r ! r') = length (a ! r')"
proof -
  show "length (put_cell idx c v a r) = length a" by (simp add: put_cell_def)
  show "length (put_cell idx c v a r ! r') = length (a ! r')"
    by (cases "r < length a"; cases "r' = r") (simp_all add: put_cell_def list_update_beyond)
qed

lemma put_cell_hist:
  assumes "r' < length a" and "c' < length (a ! r')"
  shows "hist (put_cell idx c v a r) r' c' =
           (if r' = r \<and> c' = c then idx # hist a r' c' else hist a r' c')"
  using assms by (cases "r' = r"; cases "c' = c") (simp_all add: put_cell_def hist_def)

lemma fold_put_cell_lengths:
  "length (fold (\<lambda>(r, x) a'. put_cell idx c x a' r) rvs a) = length a"
  "length (fold (\<lambda>(r, x) a'. put_cell idx c x a' r) rvs a ! r') = length (a ! r')"
  by (induction rvs arbitrary: a) (auto simp add: put_cell_lengths)

lemma fold_put_cell_hist:
  assumes "distinct (map fst rvs)" and "r' < length a" and "c' < length (a ! r')"
  shows "hist (fold (\<lambda>(r, x) a'. put_cell idx c x a' r) rvs a) r' c' =
           (if r' \<in> fst ` set rvs \<and> c' = c then idx # hist a r' c' else hist a r' c')"
  using assms
proof (induction rvs arbitrary: a)
  case Nil
  then show ?case by simp
next
  case (Cons rv rvs)
  obtain r v where rv: "rv = (r, v)" by (cases rv)
  let ?a = "put_cell idx c v a r"
  have in_range: "r' < length ?a" "c' < length (?a ! r')"
    using Cons.prems by (simp_all add: put_cell_lengths)
  have d: "distinct (map fst rvs)" "r \<notin> fst ` set rvs"
    using Cons.prems(1) rv by auto
  have "hist (fold (\<lambda>(r, x) a'. put_cell idx c x a' r) (rv # rvs) a) r' c' =
        hist (fold (\<lambda>(r, x) a'. put_cell idx c x a' r) rvs ?a) r' c'"
    by (simp add: rv)
  also have "\<dots> = (if r' \<in> fst ` set rvs \<and> c' = c then idx # hist ?a r' c' else hist ?a r' c')"
    by (rule Cons.IH[OF d(1) in_range])
  also have "hist ?a r' c' = (if r' = r \<and> c' = c then idx # hist a r' c' else hist a r' c')"
    by (rule put_cell_hist[OF Cons.prems(2,3)])
  finally show ?case using d(2) by (auto simp add: rv)
qed

lemma assign_col_hist:
  assumes "assign_col idx c v a = Inr a'" and "distinct idx"
    and "r' < length a" and "c' < length (a ! r')"
  shows "hist a' r' c' = (if r' \<in> set idx \<and> c' = c then idx # hist a r' c' else hist a r' c')"
proof (cases "length v = length idx")
  case True
  with assms(1) have a': "a' = fold (\<lambda>(r, x) a'. put_cell idx c x a' r) (zip idx v) a"
    by (simp add: assign_col_def split: if_splits)
  have m: "map fst (zip idx v) = idx" using True by simp
  have "fst ` set (zip idx v) = set idx" by (metis m list.set_map)
  with fold_put_cell_hist[of "zip idx v" r' a c' idx c] assms(2-4) m
  show ?thesis unfolding a' by simp
next
  case False
  with assms(1) have a': "a' = fold (\<lambda>r a'. put_cell idx c (hd v) a' r) idx a"
    by (simp add: assign_col_def split: if_splits)
  have f: "fold (\<lambda>r a'. put_cell idx c (hd v) a' r) idx a =
           fold (\<lambda>(r, x) a'. put_cell idx c x a' r) (map (\<lambda>r. (r, hd v)) idx) a"
    by (simp add: fold_map comp_def)
  have m: "map fst (map (\<lambda>r. (r, hd v)) idx) = idx" by (simp add: comp_def)
  have s: "fst ` set (map (\<lambda>r. (r, hd v)) idx) = set idx" by (metis m list.set_map)
  from fold_put_cell_hist[of "map (\<lambda>r. (r, hd v)) idx" r' a c' idx c] assms(2-4) m s
  show ?thesis unfolding a' f by simp
qed

lemma assign_scalar_hist:
  assumes "assign_scalar idx c x a = Inr a'" and "distinct idx"
    and "r' < length a" and "c' < length (a ! r')"
  shows "hist a' r' c' = (if r' \<in> set idx \<and> c' = c then idx # hist a r' c' else hist a r' c')"
proof -
  from assms(1) have a': "a' = fold (\<lambda>r a'. put_cell idx c x a' r) idx a"
    by (simp add: assign_scalar_def split: if_splits)
  have f: "fold (\<lambda>r a'. put_cell idx c x a' r) idx a =
           fold (\<lambda>(r, x) a'. put_cell idx c x a' r) (map (\<lambda>r. (r, x)) idx) a"
    by (simp add: fold_map comp_def)
  have m: "map fst (map (\<lambda>r. (r, x)) idx) = idx" by (simp add: comp_def)
  have s: "fst ` set (map (\<lambda>r. (r, x)) idx) = set idx" by (metis m list.set_map)
  from fold_put_cell_hist[of "map (\<lambda>r. (r, x)) idx" r' a c' idx c] assms(2-4) m s
  show ?thesis unfolding a' f by simp
qed


lemma in_acc_shape: "map length a' = map length a \<Longrightarrow> in_acc a' r c = in_acc a r c"
  unfolding in_acc_def by (metis length_map nth_map)

lemma assign_col_wr:
  assumes "assign_col idx col v a = Inr a'" and "distinct idx" and "in_acc a r c"
  shows "hist a' r c = wr idx col r c @ hist a r c"
  using assign_col_hist[OF assms(1,2)] assms(3) by (simp add: in_acc_def wr_def)

lemma assign_scalar_wr:
  assumes "assign_scalar idx col x a = Inr a'" and "distinct idx" and "in_acc a r c"
  shows "hist a' r c = wr idx col r c @ hist a r c"
  using assign_scalar_hist[OF assms(1,2)] assms(3) by (simp add: in_acc_def wr_def)

lemma foldE_hist:
  assumes "foldE f xs s = Inr s'"
    and "\<And>s x s'. f s x = Inr s' \<Longrightarrow> map length (sel s') = map length (sel s) \<and>
           (in_acc (sel s) r c \<longrightarrow> hist (sel s') r c = E x @ hist (sel s) r c)"
    and "in_acc (sel s) r c"
  shows "hist (sel s') r c = concat (rev (map E xs)) @ hist (sel s) r c \<and>
         map length (sel s') = map length (sel s)"
  using assms(1,3)
proof (induction xs arbitrary: s)
  case Nil
  then show ?case by simp
next
  case (Cons x xs)
  from Cons.prems(1) obtain s1 where s1: "f s x = Inr s1" and r: "foldE f xs s1 = Inr s'"
    by (auto elim: bindE_InrE)
  from assms(2)[OF s1] Cons.prems(2)
  have a: "map length (sel s1) = map length (sel s)" "hist (sel s1) r c = E x @ hist (sel s) r c"
    by simp_all
  have "in_acc (sel s1) r c" using in_acc_shape[OF a(1)] Cons.prems(2) by simp
  from Cons.IH[OF r this] a show ?case by simp
qed

subsection \<open>The writes of one component count\<close>

lemma store_pred_hist:
  assumes "store_pred ti k yp yte st = Inr st'" and "distinct ti"
  shows "(in_acc (ypred st) r c \<longrightarrow> hist (ypred st') r c = wr ti (k - 1) r c @ hist (ypred st) r c) \<and>
         (in_acc (pressy st) r c \<longrightarrow>
            hist (pressy st') r c = wr ti (k - 1) r c @ hist (pressy st) r c) \<and>
         tortho st' = tortho st \<and> tpred st' = tpred st"
  using assms unfolding store_pred_def
  by (elim bindE_InrE) (auto dest: assign_col_wr[where r = r and c = c])

lemma store_scores_hist:
  assumes "store_scores ti k xte tcorr tp st = Inr st'" and "distinct ti"
  shows "(in_acc (tortho st) r c \<longrightarrow> hist (tortho st') r c =
            wr ti (if length xte = 1 then 0 else k - 1) r c @ hist (tortho st) r c) \<and>
         (in_acc (tpred st) r c \<longrightarrow> hist (tpred st') r c = wr ti (k - 1) r c @ hist (tpred st) r c) \<and>
         ypred st' = ypred st \<and> pressy st' = pressy st"
  using assms unfolding store_scores_def
  apply (elim bindE_InrE)
  apply (simp only: split: if_splits)
   apply (elim bindE_InrE;
      auto dest: assign_col_wr[where r = r and c = c] assign_scalar_wr[where r = r and c = c])
  apply (elim bindE_InrE;
      auto dest: assign_col_wr[where r = r and c = c] assign_scalar_wr[where r = r and c = c])
  done

lemma fit_component_hist:
  assumes "fit_component ext est_id e ti xtr xte yte tot st k = Inr st'" and "distinct ti"
  shows "(in_acc (ypred st) r c \<longrightarrow> hist (ypred st') r c = wr ti (k - 1) r c @ hist (ypred st) r c) \<and>
         (in_acc (pressy st) r c \<longrightarrow>
            hist (pressy st') r c = wr ti (k - 1) r c @ hist (pressy st) r c) \<and>
         (in_acc (tpred st) r c \<longrightarrow> hist (tpred st') r c =
            (if est_id = ''opls'' then wr ti (k - 1) r c else []) @ hist (tpred st) r c) \<and>
         (in_acc (tortho st) r c \<longrightarrow> hist (tortho st') r c =
            (if est_id = ''opls'' then wr ti (if length xte = 1 then 0 else k - 1) r c else [])
              @ hist (tortho st) r c)"
proof (cases "est_id = ''opls''")
  case True
  from assms(1) True obtain st1 st2 tcorr tp xc yp where
    a: "store_scores ti k xte tcorr tp st = Inr st1"
    and b: "opls_sums ext e k xtr xc tcorr tot st1 = Inr st2"
    and c: "store_pred ti k yp yte st2 = Inr st'"
    unfolding fit_component_def Let_def
    by (simp add: split_beta, elim bindE_InrE, blast)
  from store_scores_hist[OF a assms(2), of r c] opls_sums_frame[OF b]
    store_pred_hist[OF c assms(2), of r c] True
  show ?thesis by simp
next
  case False
  from assms(1) False obtain yp where c: "store_pred ti k yp yte st = Inr st'"
    unfolding fit_component_def Let_def by simp
  from store_pred_hist[OF c assms(2), of r c] False show ?thesis by simp
qed


subsection \<open>The writes of one fold and of the whole loop\<close>

lemma foldE_hist_in:
  assumes "foldE f xs s = Inr s'"
    and "\<And>s x s'. x \<in> set xs \<Longrightarrow> f s x = Inr s' \<Longrightarrow>
           map length (sel s') = map length (sel s) \<and>
           (in_acc (sel s) r c \<longrightarrow> hist (sel s') r c = E x @ hist (sel s) r c)"
    and "in_acc (sel s) r c"
  shows "hist (sel s') r c = concat (rev (map E xs)) @ hist (sel s) r c"
  using assms
proof (induction xs arbitrary: s)
  case Nil
  then show ?case by simp
next
  case (Cons x xs)
  from Cons.prems(1) obtain s1 where s1: "f s x = Inr s1" and r: "foldE f xs s1 = Inr s'"
    by (auto elim: bindE_InrE)
  from Cons.prems(2)[OF _ s1] Cons.prems(3)
  have a: "map length (sel s1) = map length (sel s)" "hist (sel s1) r c = E x @ hist (sel s) r c"
    by simp_all
  have i: "in_acc (sel s1) r c" using in_acc_shape[OF a(1)] Cons.prems(3) by simp
  have "hist (sel s') r c = concat (rev (map E xs)) @ hist (sel s1) r c"
    by (rule Cons.IH[OF r _ i]) (rule Cons.prems(2), simp_all)
  with a show ?case by simp
qed

lemma concat_wr_cols:
  "concat (rev (map (\<lambda>k. wr ti (k - 1) r c) [1..<n + 1])) =
     (if r \<in> set ti \<and> c < n then [ti] else [])"
  by (induction n) (auto simp add: wr_def)

lemma concat_wr_zero:
  "concat (rev (map (\<lambda>k. wr ti 0 r c) [1..<n + 1])) =
     (if r \<in> set ti \<and> c = 0 then replicate n ti else [])"
  by (induction n) (auto simp add: wr_def replicate_append_same)

lemma concat_nil: "concat (rev (map (\<lambda>k. []) xs)) = []"
  by (induction xs) simp_all

lemma fit_fold_unfold:
  assumes "fit_fold ext est_id x y p st fd = Inr st'"
  shows "\<exists>e xtr_s yte_s tot st1 st2.
           ypred st1 = ypred st \<and> pressy st1 = pressy st \<and> tortho st1 = tortho st \<and>
           tpred st1 = tpred st \<and>
           foldE (fit_component ext est_id e (snd fd) xtr_s
                    (fold_xte_scale ext x (st_scaler st) fd) yte_s tot)
                 [1..<min (length (fst fd)) p + 1] st1 = Inr st2 \<and>
           ypred st' = ypred st2 \<and> pressy st' = pressy st2 \<and> tortho st' = tortho st2 \<and>
           tpred st' = tpred st2 \<and> npc0 st' \<le> min (length (fst fd)) p"
proof -
  from assms obtain xtr xte ytr yte where
    t: "take_idx x (fst fd) = Inr xtr" "take_idx x (snd fd) = Inr xte"
       "take_idx y (fst fd) = Inr ytr" "take_idx y (snd fd) = Inr yte"
    unfolding fit_fold_def Let_def by (elim bindE_InrE) blast
  have xtr: "xtr = map (\<lambda>i. x ! i) (fst fd)" and xte: "xte = map (\<lambda>i. x ! i) (snd fd)"
    using t(1,2) by (auto dest: take_idx_Inr)
  define s1 where "s1 = fst (sc_fit_m ext (st_scaler st) xtr)"
  define xtr_s where "xtr_s = snd (sc_fit_m ext (st_scaler st) xtr)"
  define xte_s where "xte_s = sc_scale_m ext s1 xte"
  define s2 where "s2 = fst (sc_fit_v ext s1 ytr)"
  define ytr_s where "ytr_s = snd (sc_fit_v ext s1 ytr)"
  define yte_s where "yte_s = sc_scale_v ext s2 yte"
  define npc where "npc = min (length xtr) p"
  have body: "(case st_estimator st of
            None \<Rightarrow> Inl AttributeError
          | Some e0 \<Rightarrow>
              bindE (foldE (fit_component ext est_id (est_fit ext e0 xtr_s ytr_s npc) (snd fd)
                              xtr_s xte_s yte_s (sumsq_m xte_s)) [1..<npc + 1]
                      (st\<lparr>st_scaler := s2, st_estimator := Some (est_fit ext e0 xtr_s ytr_s npc),
                          npc0 := (if npc < npc0 st then npc else npc0 st)\<rparr>))
                (\<lambda>st2. Inr (st2\<lparr>ssy := ssy st2 @ [sumsq_v yte_s]\<rparr>))) = Inr st'"
    using assms
    unfolding fit_fold_def Let_def split_beta t bindE_Inr
      s1_def xtr_s_def xte_s_def s2_def ytr_s_def yte_s_def npc_def .
  then obtain e0 where e0: "st_estimator st = Some e0"
    by (cases "st_estimator st") simp_all
  let ?e = "est_fit ext e0 xtr_s ytr_s npc"
  let ?st1 = "st\<lparr>st_scaler := s2, st_estimator := Some ?e,
                 npc0 := (if npc < npc0 st then npc else npc0 st)\<rparr>"
  from body e0 obtain st2 where
    l: "foldE (fit_component ext est_id ?e (snd fd) xtr_s xte_s yte_s (sumsq_m xte_s))
          [1..<npc + 1] ?st1 = Inr st2"
    and st': "st' = st2\<lparr>ssy := ssy st2 @ [sumsq_v yte_s]\<rparr>"
    by (simp only: option.case) (elim bindE_InrE, simp)
  have n: "npc = min (length (fst fd)) p" by (simp add: npc_def xtr)
  have xs: "xte_s = fold_xte_scale ext x (st_scaler st) fd"
    by (simp add: xte_s_def s1_def fold_xte_scale_def xtr xte)
  have "npc0 st2 = npc0 ?st1" using components_shape[OF l] by simp
  then have b: "npc0 st' \<le> min (length (fst fd)) p" unfolding st' n by auto
  have a: "ypred ?st1 = ypred st" "pressy ?st1 = pressy st" "tortho ?st1 = tortho st"
    "tpred ?st1 = tpred st" by simp_all
  have c: "ypred st' = ypred st2" "pressy st' = pressy st2" "tortho st' = tortho st2"
    "tpred st' = tpred st2" by (simp_all add: st')
  from l a b c show ?thesis unfolding n xs by blast
qed


lemma shapes_eq:
  assumes "shapes st' = shapes st"
  shows "map length (ypred st') = map length (ypred st)"
    "map length (pressy st') = map length (pressy st)"
    "map length (tortho st') = map length (tortho st)"
    "map length (tpred st') = map length (tpred st)"
  using assms by (simp_all add: shapes_def)

lemma components_hist:
  assumes "foldE (fit_component ext est_id e ti xtr xte yte tot) [1..<n + 1] st = Inr st'"
    and "distinct ti"
  shows "in_acc (ypred st) r c \<Longrightarrow> hist (ypred st') r c = fw ti n r c @ hist (ypred st) r c"
    and "in_acc (pressy st) r c \<Longrightarrow> hist (pressy st') r c = fw ti n r c @ hist (pressy st) r c"
    and "in_acc (tpred st) r c \<Longrightarrow> hist (tpred st') r c =
           (if est_id = ''opls'' then fw ti n r c else []) @ hist (tpred st) r c"
    and "in_acc (tortho st) r c \<Longrightarrow> hist (tortho st') r c =
           (if est_id = ''opls'' then (if length xte = 1 then fw0 ti n r c else fw ti n r c)
            else []) @ hist (tortho st) r c"
proof -
  note step = fit_component_hist[where r = r and c = c, OF _ assms(2)]
  note shp = fit_component_shape[THEN conjunct1, THEN shapes_eq(1)]
    fit_component_shape[THEN conjunct1, THEN shapes_eq(2)]
    fit_component_shape[THEN conjunct1, THEN shapes_eq(3)]
    fit_component_shape[THEN conjunct1, THEN shapes_eq(4)]
  have G: "hist (sel st') r c = concat (rev (map E [1..<n + 1])) @ hist (sel st) r c"
    if "in_acc (sel st) r c"
      and "\<And>s k s'. fit_component ext est_id e ti xtr xte yte tot s k = Inr s' \<Longrightarrow>
             map length (sel s') = map length (sel s) \<and>
             (in_acc (sel s) r c \<longrightarrow> hist (sel s') r c = E k @ hist (sel s) r c)"
    for sel E
    by (rule foldE_hist_in[where sel = sel and E = E and r = r and c = c, OF assms(1)])
       (rule that(2), assumption, rule that(1))
  have cols: "concat (rev (map (\<lambda>k. wr ti (k - 1) r c) [1..<n + 1])) = fw ti n r c"
    unfolding fw_def by (rule concat_wr_cols)
  have zero: "concat (rev (map (\<lambda>k. wr ti 0 r c) [1..<n + 1])) = fw0 ti n r c"
    unfolding fw0_def by (rule concat_wr_zero)
  have none: "concat (rev (map (\<lambda>k. []) [1..<n + 1])) = ([] :: nat list list)"
    by (rule concat_nil)
  show "hist (ypred st') r c = fw ti n r c @ hist (ypred st) r c" if i: "in_acc (ypred st) r c"
  proof -
    have "hist (ypred st') r c =
          concat (rev (map (\<lambda>k. wr ti (k - 1) r c) [1..<n + 1])) @ hist (ypred st) r c"
      by (rule G[where sel = ypred and E = "\<lambda>k. wr ti (k - 1) r c", OF i]) (frule step, drule shp(1), simp)
    then show ?thesis unfolding cols .
  qed
  show "hist (pressy st') r c = fw ti n r c @ hist (pressy st) r c" if i: "in_acc (pressy st) r c"
  proof -
    have "hist (pressy st') r c =
          concat (rev (map (\<lambda>k. wr ti (k - 1) r c) [1..<n + 1])) @ hist (pressy st) r c"
      by (rule G[where sel = pressy and E = "\<lambda>k. wr ti (k - 1) r c", OF i]) (frule step, drule shp(2), simp)
    then show ?thesis unfolding cols .
  qed
  show "hist (tpred st') r c =
           (if est_id = ''opls'' then fw ti n r c else []) @ hist (tpred st) r c"
    if i: "in_acc (tpred st) r c"
  proof (cases "est_id = ''opls''")
    case True
    have "hist (tpred st') r c =
          concat (rev (map (\<lambda>k. wr ti (k - 1) r c) [1..<n + 1])) @ hist (tpred st) r c"
      by (rule G[where sel = tpred and E = "\<lambda>k. wr ti (k - 1) r c", OF i]) (frule step, drule shp(4), simp add: True)
    then show ?thesis unfolding cols using True by simp
  next
    case False
    have "hist (tpred st') r c =
          concat (rev (map (\<lambda>k. []) [1..<n + 1])) @ hist (tpred st) r c"
      by (rule G[where sel = tpred and E = "\<lambda>k. []", OF i]) (frule step, drule shp(4), simp add: False)
    then show ?thesis unfolding none using False by simp
  qed
  show "hist (tortho st') r c =
           (if est_id = ''opls'' then (if length xte = 1 then fw0 ti n r c else fw ti n r c)
            else []) @ hist (tortho st) r c"
    if i: "in_acc (tortho st) r c"
  proof (cases "est_id = ''opls''")
    case True
    show ?thesis
    proof (cases "length xte = 1")
      case one: True
      have "hist (tortho st') r c =
          concat (rev (map (\<lambda>k. wr ti 0 r c) [1..<n + 1])) @ hist (tortho st) r c"
        by (rule G[where sel = tortho and E = "\<lambda>k. wr ti 0 r c", OF i]) (frule step, drule shp(3), insert one, simp add: True)
      then show ?thesis unfolding zero using True one by simp
    next
      case many: False
      have "hist (tortho st') r c =
          concat (rev (map (\<lambda>k. wr ti (k - 1) r c) [1..<n + 1])) @ hist (tortho st) r c"
        by (rule G[where sel = tortho and E = "\<lambda>k. wr ti (k - 1) r c", OF i]) (frule step, drule shp(3), insert many, simp add: True)
      then show ?thesis unfolding cols using True many by simp
    qed
  next
    case False
    have "hist (tortho st') r c =
          concat (rev (map (\<lambda>k. []) [1..<n + 1])) @ hist (tortho st) r c"
      by (rule G[where sel = tortho and E = "\<lambda>k. []", OF i]) (frule step, drule shp(3), simp add: False)
    then show ?thesis unfolding none using False by simp
  qed
qed

lemma fit_fold_hist:
  assumes "fit_fold ext est_id x y p st fd = Inr st'" and "distinct (snd fd)"
  shows "in_acc (ypred st) r c \<Longrightarrow> hist (ypred st') r c =
           fw (snd fd) (min (length (fst fd)) p) r c @ hist (ypred st) r c"
    and "in_acc (pressy st) r c \<Longrightarrow> hist (pressy st') r c =
           fw (snd fd) (min (length (fst fd)) p) r c @ hist (pressy st) r c"
    and "in_acc (tpred st) r c \<Longrightarrow> hist (tpred st') r c =
           (if est_id = ''opls'' then fw (snd fd) (min (length (fst fd)) p) r c else [])
             @ hist (tpred st) r c"
    and "in_acc (tortho st) r c \<Longrightarrow> hist (tortho st') r c =
           (if est_id = ''opls''
            then (if length (fold_xte_scale ext x (st_scaler st) fd) = 1
                  then fw0 (snd fd) (min (length (fst fd)) p) r c
                  else fw (snd fd) (min (length (fst fd)) p) r c)
            else []) @ hist (tortho st) r c"
proof -
  from fit_fold_unfold[OF assms(1)] obtain e xtr_s yte_s tot st1 st2 where
    a: "ypred st1 = ypred st" "pressy st1 = pressy st" "tortho st1 = tortho st"
      "tpred st1 = tpred st"
    and l: "foldE (fit_component ext est_id e (snd fd) xtr_s
                    (fold_xte_scale ext x (st_scaler st) fd) yte_s tot)
                 [1..<min (length (fst fd)) p + 1] st1 = Inr st2"
    and c: "ypred st' = ypred st2" "pressy st' = pressy st2" "tortho st' = tortho st2"
      "tpred st' = tpred st2"
    by blast
  note h = components_hist[OF l assms(2), where r = r and c = c, unfolded a, folded c]
  show "in_acc (ypred st) r c \<Longrightarrow> hist (ypred st') r c =
           fw (snd fd) (min (length (fst fd)) p) r c @ hist (ypred st) r c" by (rule h(1))
  show "in_acc (pressy st) r c \<Longrightarrow> hist (pressy st') r c =
           fw (snd fd) (min (length (fst fd)) p) r c @ hist (pressy st) r c" by (rule h(2))
  show "in_acc (tpred st) r c \<Longrightarrow> hist (tpred st') r c =
           (if est_id = ''opls'' then fw (snd fd) (min (length (fst fd)) p) r c else [])
             @ hist (tpred st) r c" by (rule h(3))
  show "in_acc (tortho st) r c \<Longrightarrow> hist (tortho st') r c =
           (if est_id = ''opls''
            then (if length (fold_xte_scale ext x (st_scaler st) fd) = 1
                  then fw0 (snd fd) (min (length (fst fd)) p) r c
                  else fw (snd fd) (min (length (fst fd)) p) r c)
            else []) @ hist (tortho st) r c" by (rule h(4))
qed


lemma folds_hist:
  assumes "foldE (fit_fold ext est_id x y p) fds st = Inr st'"
    and "\<forall>fd\<in>set fds. distinct (snd fd)"
  shows "in_acc (ypred st) r c \<Longrightarrow> hist (ypred st') r c =
           concat (rev (map (\<lambda>fd. fw (snd fd) (min (length (fst fd)) p) r c) fds))
             @ hist (ypred st) r c"
    and "in_acc (pressy st) r c \<Longrightarrow> hist (pressy st') r c =
           concat (rev (map (\<lambda>fd. fw (snd fd) (min (length (fst fd)) p) r c) fds))
             @ hist (pressy st) r c"
    and "in_acc (tpred st) r c \<Longrightarrow> est_id = ''opls'' \<Longrightarrow> hist (tpred st') r c =
           concat (rev (map (\<lambda>fd. fw (snd fd) (min (length (fst fd)) p) r c) fds))
             @ hist (tpred st) r c"
    and "in_acc (tortho st) r c \<Longrightarrow> est_id = ''opls'' \<Longrightarrow>
         \<forall>s m. length (sc_scale_m ext s m) = length m \<Longrightarrow>
         hist (tortho st') r c =
           concat (rev (map (\<lambda>fd. if length (snd fd) = 1
                                   then fw0 (snd fd) (min (length (fst fd)) p) r c
                                   else fw (snd fd) (min (length (fst fd)) p) r c) fds))
             @ hist (tortho st) r c"
proof -
  note shp = fit_fold_shape[THEN conjunct1, THEN shapes_eq(1)]
    fit_fold_shape[THEN conjunct1, THEN shapes_eq(2)]
    fit_fold_shape[THEN conjunct1, THEN shapes_eq(3)]
    fit_fold_shape[THEN conjunct1, THEN shapes_eq(4)]
  have G: "hist (sel st') r c = concat (rev (map E fds)) @ hist (sel st) r c"
    if "in_acc (sel st) r c"
      and "\<And>s fd s'. fd \<in> set fds \<Longrightarrow> fit_fold ext est_id x y p s fd = Inr s' \<Longrightarrow>
             map length (sel s') = map length (sel s) \<and>
             (in_acc (sel s) r c \<longrightarrow> hist (sel s') r c = E fd @ hist (sel s) r c)"
    for sel E
    by (rule foldE_hist_in[where sel = sel and E = E and r = r and c = c, OF assms(1)])
       (rule that(2), assumption, assumption, rule that(1))
  show "hist (ypred st') r c =
           concat (rev (map (\<lambda>fd. fw (snd fd) (min (length (fst fd)) p) r c) fds))
             @ hist (ypred st) r c" if i: "in_acc (ypred st) r c"
  proof (rule G[where sel = ypred, OF i], intro conjI impI)
    fix s fd s' assume fd: "fd \<in> set fds" and f: "fit_fold ext est_id x y p s fd = Inr s'"
    show "map length (ypred s') = map length (ypred s)" by (rule shp(1)[OF f])
    assume "in_acc (ypred s) r c"
    then show "hist (ypred s') r c =
        fw (snd fd) (min (length (fst fd)) p) r c @ hist (ypred s) r c"
      using fit_fold_hist(1)[OF f] assms(2) fd by blast
  qed
  show "hist (pressy st') r c =
           concat (rev (map (\<lambda>fd. fw (snd fd) (min (length (fst fd)) p) r c) fds))
             @ hist (pressy st) r c" if i: "in_acc (pressy st) r c"
  proof (rule G[where sel = pressy, OF i], intro conjI impI)
    fix s fd s' assume fd: "fd \<in> set fds" and f: "fit_fold ext est_id x y p s fd = Inr s'"
    show "map length (pressy s') = map length (pressy s)" by (rule shp(2)[OF f])
    assume "in_acc (pressy s) r c"
    then show "hist (pressy s') r c =
        fw (snd fd) (min (length (fst fd)) p) r c @ hist (pressy s) r c"
      using fit_fold_hist(2)[OF f] assms(2) fd by blast
  qed
  show "hist (tpred st') r c =
           concat (rev (map (\<lambda>fd. fw (snd fd) (min (length (fst fd)) p) r c) fds))
             @ hist (tpred st) r c" if i: "in_acc (tpred st) r c" and o: "est_id = ''opls''"
  proof (rule G[where sel = tpred, OF i], intro conjI impI)
    fix s fd s' assume fd: "fd \<in> set fds" and f: "fit_fold ext est_id x y p s fd = Inr s'"
    show "map length (tpred s') = map length (tpred s)" by (rule shp(4)[OF f])
    assume "in_acc (tpred s) r c"
    then show "hist (tpred s') r c =
        fw (snd fd) (min (length (fst fd)) p) r c @ hist (tpred s) r c"
      using fit_fold_hist(3)[OF f] assms(2) fd o by simp
  qed
  show "hist (tortho st') r c =
           concat (rev (map (\<lambda>fd. if length (snd fd) = 1
                                   then fw0 (snd fd) (min (length (fst fd)) p) r c
                                   else fw (snd fd) (min (length (fst fd)) p) r c) fds))
             @ hist (tortho st) r c"
    if i: "in_acc (tortho st) r c" and o: "est_id = ''opls''"
      and rows: "\<forall>s m. length (sc_scale_m ext s m) = length m"
  proof (rule G[where sel = tortho, OF i], intro conjI impI)
    fix s fd s' assume fd: "fd \<in> set fds" and f: "fit_fold ext est_id x y p s fd = Inr s'"
    show "map length (tortho s') = map length (tortho s)" by (rule shp(3)[OF f])
    have l: "length (fold_xte_scale ext x (st_scaler s) fd) = length (snd fd)"
      using rows by (simp add: fold_xte_scale_def)
    assume "in_acc (tortho s) r c"
    then show "hist (tortho s') r c =
        (if length (snd fd) = 1 then fw0 (snd fd) (min (length (fst fd)) p) r c
         else fw (snd fd) (min (length (fst fd)) p) r c) @ hist (tortho s) r c"
      using fit_fold_hist(4)[OF f, of r c] assms(2) fd o unfolding l by simp
  qed
qed

lemma folds_npc0:
  assumes "foldE (fit_fold ext est_id x y p) fds st = Inr st'" and "fd \<in> set fds"
  shows "npc0 st' \<le> min (length (fst fd)) p"
  using assms
proof (induction fds arbitrary: st)
  case Nil
  then show ?case by simp
next
  case (Cons a fds)
  from Cons.prems(1) obtain s1 where s1: "fit_fold ext est_id x y p st a = Inr s1"
    and r: "foldE (fit_fold ext est_id x y p) fds s1 = Inr st'"
    by (auto elim: bindE_InrE)
  show ?case
  proof (cases "fd = a")
    case True
    from fit_fold_unfold[OF s1] have "npc0 s1 \<le> min (length (fst a)) p" by blast
    with folds_shape[OF r] True show ?thesis by simp
  next
    case False
    with Cons.prems(2) have "fd \<in> set fds" by simp
    from Cons.IH[OF r this] show ?thesis .
  qed
qed

lemma concat_rev_nil: "(\<forall>e\<in>set ys. E e = []) \<Longrightarrow> concat (rev (map E ys)) = []"
  by (induction ys) simp_all

lemma concat_rev_single:
  assumes "i < length xs" and "\<forall>j<length xs. j \<noteq> i \<longrightarrow> E (xs ! j) = []"
  shows "concat (rev (map E xs)) = E (xs ! i)"
proof -
  have xs: "xs = take i xs @ xs ! i # drop (Suc i) xs"
    using assms(1) by (rule id_take_nth_drop)
  have a: "\<forall>e\<in>set (take i xs). E e = []"
  proof
    fix e assume "e \<in> set (take i xs)"
    then obtain j where "j < i" "e = xs ! j"
      using assms(1) by (auto simp add: in_set_conv_nth)
    with assms show "E e = []" by simp
  qed
  have b: "\<forall>e\<in>set (drop (Suc i) xs). E e = []"
  proof
    fix e assume "e \<in> set (drop (Suc i) xs)"
    then obtain j where "j < length xs - Suc i" "e = xs ! (Suc i + j)"
      by (auto simp add: in_set_conv_nth)
    with assms show "E e = []" by simp
  qed
  have "concat (rev (map E xs)) =
        concat (rev (map E (drop (Suc i) xs))) @ E (xs ! i) @ concat (rev (map E (take i xs)))"
    by (subst xs) simp
  then show ?thesis by (simp add: concat_rev_nil[OF a] concat_rev_nil[OF b])
qed

lemma np_empty_cell:
  "r < n \<Longrightarrow> c < m \<Longrightarrow> in_acc (np_empty g n m) r c \<and> hist (np_empty g n m) r c = []"
  by (simp add: np_empty_def in_acc_def hist_def)

lemma cv_loop_unfold:
  assumes "cv_loop ext g cv x y = Inr st" and "1 \<le> kfold cv"
  obtains st0 where
    "foldE (fit_fold ext (estimator_id cv) x y (ncols x))
       (map (\<lambda>i. split_fold (length x) (length x div nat (kfold cv)) i) [0..<nat (kfold cv)]) st0
     = Inr st"
    "ypred st0 = np_empty (g ''ypred'') (length x) (min (length x) (ncols x))"
    "pressy st0 = np_empty (g ''pressy'') (length x) (min (length x) (ncols x))"
    "tortho st0 = np_empty (g ''tortho'') (length x) (min (length x) (ncols x))"
    "tpred st0 = np_empty (g ''tpred'') (length x) (min (length x) (ncols x))"
proof -
  let ?m = "min (length x) (ncols x)"
  let ?st0 = "\<lparr> st_scaler = scaler cv, st_estimator = estimator cv, npc0 = ?m,
                  ssx = (\<lambda>k key. []), ssy = [],
                  ypred = np_empty (g ''ypred'') (length x) ?m,
                  pressy = np_empty (g ''pressy'') (length x) ?m,
                  tortho = np_empty (g ''tortho'') (length x) ?m,
                  tpred = np_empty (g ''tpred'') (length x) ?m,
                  pcv = (\<lambda>k. []) \<rparr>"
  from assms(1) have "foldE (fit_fold ext (estimator_id cv) x y (ncols x))
       (map (\<lambda>i. split_fold (length x) (length x div nat (kfold cv)) i) [0..<nat (kfold cv)]) ?st0
     = Inr st"
    unfolding cv_loop_def Let_def split_Inr[OF assms(2)] bindE_Inr .
  then show ?thesis by (rule that) simp_all
qed

lemma toy_loop_opls:
  "\<exists>st. cv_loop toy (\<lambda>a r c. 0) (toy_cv ''opls'' 2) [[3], [-1]] [1, 0] = Inr st \<and> npc0 st = 1"
  by (simp add: np_defs loop_defs toy_defs Let_def upt_small numeral_eq_Suc)

subsection \<open>Claims about the writes of the loop\<close>



lemma split_3_3:
  "split 3 (Suc (Suc (Suc 0))) = Inr [([1, 2], [0]), ([0, 2], [1]), ([0, 1], [2])]"
proof -
  have u: "[0..<3] = [0, 1, 2::nat]" "[0..<Suc (Suc (Suc 0))] = [0, 1, 2::nat]"
    by (simp_all add: upt_rec)
  have k: "nat 3 = 3" "nat (int (Suc (Suc (Suc 0))) div 3) = 1" by simp_all
  show ?thesis
    unfolding split_def Let_def k
    by (simp add: split_fold_def slice_assign_def mask_select_def u Let_def)
qed

lemma toy_loop_loo:
  "\<exists>st. cv_loop toy (\<lambda>a r c. 0) (toy_cv ''opls'' 3) [[1, 2], [-1, 0], [3, 1]] [1, 0, 1] = Inr st"
  unfolding cv_loop_def Let_def
  by (simp add: split_3_3 toy_defs fit_fold_def fit_component_def store_scores_def
      store_pred_def opls_sums_def np_defs Let_def upt_small numeral_eq_Suc)

lemma split_fold_train_length: "length (fst (split_fold n blk i)) \<le> n"
  unfolding split_fold_train by (metis length_filter_le length_upt diff_zero)



lemma split_2_3: "split 2 (Suc (Suc (Suc 0))) = Inr [([1, 2], [0]), ([0, 2], [1])]"
proof -
  have u: "[0..<Suc (Suc (Suc 0))] = [0, 1, 2::nat]" by (simp add: upt_rec)
  have k: "nat 2 = 2" "nat (int (Suc (Suc (Suc 0))) div 2) = 1" by simp_all
  show ?thesis
    unfolding split_def Let_def k
    by (simp add: split_fold_def slice_assign_def mask_select_def u Let_def upt_small)
qed

lemma toy_fit_remainder:
  "\<exists>c. fit toy (\<lambda>a r c. v) (toy_cv ''pls'' 2) [[3], [-1], [5]] [1, 0, 1] = Inr c \<and>
     h_ypred c = Some [[3], [-1], [v]] \<and>
     h_mis_classifications c = Some [if 0 < v then 0 else 1]"
  unfolding fit_def cv_loop_def Let_def
  by (simp add: split_2_3 toy_defs fit_fold_def fit_component_def store_pred_def
      save_metrics_def summary_cv_def create_optimal_model_def summary_fit_def
      np_defs Let_def upt_small numeral_eq_Suc)


text \<open>
  C4. The statement that the last fold's test block runs through index \<open>n - 1\<close> fails on the
  code: the slice bound \<open>min (blk * (i + 1)) n\<close> never exceeds \<open>blk * kfold\<close>, so for
  \<open>n = 5\<close> and \<open>kfold = 2\<close> the last test block is \<open>[2, 3]\<close> and sample \<open>4\<close> is held out in no
  fold. The rows that no fold holds out keep what \<open>np.empty\<close> left in them, and
  \<open>_summary_cv\<close> counts them: for \<open>n = 3\<close> and \<open>kfold = 2\<close> the misclassification count
  depends on the uninitialised entry of row 2.
\<close>

theorem split_drops_remainder:
  "(\<exists>folds. split 2 5 = Inr folds \<and>
      folds = [([2, 3, 4], [0, 1]), ([0, 1, 4], [2, 3])] \<and>
      snd (last folds) = [2, 3] \<and> 4 \<notin> (\<Union>f \<in> set folds. set (snd f))) \<and>
   (\<exists>c0 c1. fit toy (\<lambda>a r c. 0) (toy_cv ''pls'' 2) [[3], [-1], [5]] [1, 0, 1] = Inr c0 \<and>
      fit toy (\<lambda>a r c. 1) (toy_cv ''pls'' 2) [[3], [-1], [5]] [1, 0, 1] = Inr c1 \<and>
      h_ypred c0 = Some [[3], [-1], [0]] \<and> h_ypred c1 = Some [[3], [-1], [1]] \<and>
      mis_classifications c0 = Inr (Some [1]) \<and> mis_classifications c1 = Inr (Some [0]))"
proof
  show "\<exists>folds. split 2 5 = Inr folds \<and>
      folds = [([2, 3, 4], [0, 1]), ([0, 1, 4], [2, 3])] \<and>
      snd (last folds) = [2, 3] \<and> 4 \<notin> (\<Union>f \<in> set folds. set (snd f))"
    by (rule split_2_5)
next
  from toy_fit_remainder[of 0] obtain c0 where
    c0: "fit toy (\<lambda>a r c. 0) (toy_cv ''pls'' 2) [[3], [-1], [5]] [1, 0, 1] = Inr c0"
      "h_ypred c0 = Some [[3], [-1], [0]]" "h_mis_classifications c0 = Some [1]"
    by auto
  from toy_fit_remainder[of 1] obtain c1 where
    c1: "fit toy (\<lambda>a r c. 1) (toy_cv ''pls'' 2) [[3], [-1], [5]] [1, 0, 1] = Inr c1"
      "h_ypred c1 = Some [[3], [-1], [1]]" "h_mis_classifications c1 = Some [0]"
    by auto
  from c0 c1
  show "\<exists>c0 c1. fit toy (\<lambda>a r c. 0) (toy_cv ''pls'' 2) [[3], [-1], [5]] [1, 0, 1] = Inr c0 \<and>
      fit toy (\<lambda>a r c. 1) (toy_cv ''pls'' 2) [[3], [-1], [5]] [1, 0, 1] = Inr c1 \<and>
      h_ypred c0 = Some [[3], [-1], [0]] \<and> h_ypred c1 = Some [[3], [-1], [1]] \<and>
      mis_classifications c0 = Inr (Some [1]) \<and> mis_classifications c1 = Inr (Some [0])"
    by (intro exI[of _ c0] exI[of _ c1]) (simp add: mis_classifications_def)
qed

end
